theory Spec2Isabelle
  imports Main "HOL-Library.Multiset"
begin

section \<open>Dates\<close>

text \<open>
  A \<^verbatim>\<open>time.Time\<close> of the service is always a midnight UTC instant and a PostgreSQL
  \<^verbatim>\<open>DATE\<close> is a day; both are modelled as the number of days since 0001-01-01 of the
  proleptic Gregorian calendar, an unbounded integer (the range limits of Go's
  \<^verbatim>\<open>time.Time\<close> and of PostgreSQL's \<^verbatim>\<open>DATE\<close> are outside the model).
  \<^verbatim>\<open>CURRENT_DATE\<close> and \<^verbatim>\<open>CURRENT_TIMESTAMP\<close> are arguments of the operations.
\<close>

type_synonym date = int
type_synonym timestamp = int
type_synonym uuid = nat

definition isLeap :: "int \<Rightarrow> bool" where
  "isLeap year = (year mod 4 = 0 \<and> (year mod 100 \<noteq> 0 \<or> year mod 400 = 0))"

text \<open>Go's table \<^verbatim>\<open>daysBefore\<close>: the days of a non-leap year before month \<open>m + 1\<close>.\<close>

definition daysBefore :: "int \<Rightarrow> int" where
  "daysBefore m =
     (if m = 0 then 0 else if m = 1 then 31 else if m = 2 then 59 else if m = 3 then 90
      else if m = 4 then 120 else if m = 5 then 151 else if m = 6 then 181
      else if m = 7 then 212 else if m = 8 then 243 else if m = 9 then 273
      else if m = 10 then 304 else if m = 11 then 334 else 365)"

definition daysIn :: "int \<Rightarrow> int \<Rightarrow> int" where
  "daysIn m year =
     (if m = 2 \<and> isLeap year then 29 else daysBefore m - daysBefore (m - 1))"

text \<open>The days from 0001-01-01 to the first of January of \<open>year\<close>.\<close>

definition daysSinceEpoch :: "int \<Rightarrow> int" where
  "daysSinceEpoch year =
     365 * (year - 1) + (year - 1) div 4 - (year - 1) div 100 + (year - 1) div 400"

text \<open>
  \<^verbatim>\<open>time.Date(year, month, day, 0, 0, 0, 0, time.UTC)\<close>: the month is normalised into
  1..12 with the overflow carried into the year; the day is not normalised but added.
\<close>

definition Date :: "int \<Rightarrow> int \<Rightarrow> int \<Rightarrow> date" where
  "Date year month day =
     (let m = month - 1;
          y = year + m div 12;
          mo = m mod 12 + 1
      in daysSinceEpoch y + daysBefore (mo - 1)
         + (if isLeap y \<and> 3 \<le> mo then 1 else 0) + (day - 1))"

subsection \<open>From a day back to year, month and day\<close>









subsection \<open>Formatting with the layout 2006-01-02\<close>





subsection \<open>Parsing the layout 2006-01-02\<close>

definition isDigit :: "char \<Rightarrow> bool" where
  "isDigit c = ((48::nat) \<le> of_char c \<and> of_char c \<le> (57::nat))"

definition digitVal :: "char \<Rightarrow> int" where
  "digitVal c = int (of_char c) - 48"

text \<open>
  \<^verbatim>\<open>time.Parse("2006-01-02", v)\<close>: four digits, a dash, two digits, a dash, two digits
  and nothing else; the month must be in 1..12 and the day in 1..\<open>daysIn\<close>. Every failure
  is the same Go error, so \<open>None\<close>.
\<close>

definition time_Parse :: "string \<Rightarrow> date option" where
  "time_Parse v =
     (if length v \<noteq> 10 then None
      else if \<not> (isDigit (v ! 0) \<and> isDigit (v ! 1) \<and> isDigit (v ! 2) \<and> isDigit (v ! 3))
        then None
      else if v ! 4 \<noteq> CHR ''-'' then None
      else if \<not> (isDigit (v ! 5) \<and> isDigit (v ! 6)) then None
      else if v ! 7 \<noteq> CHR ''-'' then None
      else if \<not> (isDigit (v ! 8) \<and> isDigit (v ! 9)) then None
      else
        (let year = 1000 * digitVal (v ! 0) + 100 * digitVal (v ! 1)
                    + 10 * digitVal (v ! 2) + digitVal (v ! 3);
             month = 10 * digitVal (v ! 5) + digitVal (v ! 6);
             day = 10 * digitVal (v ! 8) + digitVal (v ! 9)
         in if month \<le> 0 \<or> 12 < month then None
            else if day < 1 \<or> daysIn month year < day then None
            else Some (Date year month day)))"

section \<open>The schema\<close>

text \<open>
  One record per table row. \<^verbatim>\<open>total_nights\<close> is a generated column, so it is a function
  of the row. \<^verbatim>\<open>booking_amount DECIMAL(10, 2)\<close> is held in hundredths. The table
  \<^verbatim>\<open>booking_history\<close> is written by an \<^verbatim>\<open>AFTER\<close> trigger and read by no operation of
  the service; it is not modelled.
\<close>

record booking_row =
  booking_id :: uuid
  property_id :: uuid
  created_by :: uuid
  guest_name :: string
  guest_id_card :: string
  guest_contact_number :: string
  guest_email :: "string option"
  check_in_date :: date
  check_out_date :: date
  number_of_guests :: int
  booking_notes :: "string option"
  special_requests :: "string option"
  booking_status :: string
  booking_amount :: "int option"
  payment_status :: string
  created_at :: timestamp
  updated_at :: timestamp

definition total_nights :: "booking_row \<Rightarrow> int" where
  "total_nights b = check_out_date b - check_in_date b"

record guest_row =
  g_guest_id :: uuid
  g_booking_id :: uuid
  g_guest_name :: string
  g_guest_id_card :: "string option"
  g_guest_contact_number :: "string option"
  g_guest_age :: "int option"
  g_relationship_to_main_guest :: "string option"
  g_created_at :: timestamp

text \<open>
  The database: of \<^verbatim>\<open>users\<close> and \<^verbatim>\<open>properties\<close> only the keys matter (they are the
  targets of foreign keys); the other two tables are lists of rows in storage order.
\<close>

record store =
  users :: "uuid set"
  properties :: "uuid set"
  bookings :: "booking_row list"
  booking_guests :: "guest_row list"

datatype db_error =
    DataException
  | OverlapException
  | CheckViolation string
  | UniqueViolation
  | ForeignKeyViolation

datatype error =
    InvalidCheckInDate
  | InvalidCheckOutDate
  | NoFieldsToUpdate
  | BookingNotFound
  | NotFoundOrNotCancellable
  | DbError db_error

subsection \<open>Column types\<close>

text \<open>
  \<^verbatim>\<open>VARCHAR(n)\<close>: a longer value is an error unless the excess is all spaces, and then it
  is cut to \<open>n\<close>. \<^verbatim>\<open>INTEGER\<close> is 32 bits. \<^verbatim>\<open>DECIMAL(10, 2)\<close> has eight digits before
  the point. A value that does not fit is a data exception (SQLSTATE class 22), raised
  when the statement's parameters are bound and typed, before any row is looked at.
\<close>

definition varchar :: "nat \<Rightarrow> string \<Rightarrow> db_error + string" where
  "varchar n v =
     (if length v \<le> n then Inr v
      else if list_all (\<lambda>c. c = CHR '' '') (drop n v) then Inr (take n v)
      else Inl DataException)"

definition varchar_opt :: "nat \<Rightarrow> string option \<Rightarrow> db_error + string option" where
  "varchar_opt n v =
     (case v of None \<Rightarrow> Inr None
      | Some x \<Rightarrow> (case varchar n x of Inl e \<Rightarrow> Inl e | Inr y \<Rightarrow> Inr (Some y)))"

definition int4 :: "int \<Rightarrow> db_error + int" where
  "int4 i = (if - 2147483648 \<le> i \<and> i \<le> 2147483647 then Inr i else Inl DataException)"

definition int4_opt :: "int option \<Rightarrow> db_error + int option" where
  "int4_opt v =
     (case v of None \<Rightarrow> Inr None
      | Some x \<Rightarrow> (case int4 x of Inl e \<Rightarrow> Inl e | Inr y \<Rightarrow> Inr (Some y)))"

definition decimal_10_2 :: "int option \<Rightarrow> db_error + int option" where
  "decimal_10_2 v =
     (case v of None \<Rightarrow> Inr None
      | Some x \<Rightarrow> (if - 10000000000 < x \<and> x < 10000000000 then Inr (Some x)
                  else Inl DataException))"

subsection \<open>The trigger \<^verbatim>\<open>check_booking_overlap\<close>\<close>

text \<open>The three disjuncts of the trigger's \<^verbatim>\<open>WHERE\<close> clause, \<open>new\<close> against a stored row.\<close>

definition conflict :: "date \<Rightarrow> date \<Rightarrow> date \<Rightarrow> date \<Rightarrow> bool" where
  "conflict new_in new_out row_in row_out =
     ((row_in \<le> new_in \<and> new_in < row_out)
      \<or> (row_in < new_out \<and> new_out \<le> row_out)
      \<or> (new_in \<le> row_in \<and> row_out \<le> new_out))"

definition active :: "booking_row \<Rightarrow> bool" where
  "active b = (booking_status b = ''confirmed'' \<or> booking_status b = ''pending'')"

definition overlap_row :: "booking_row \<Rightarrow> booking_row \<Rightarrow> bool" where
  "overlap_row new r =
     (property_id r = property_id new \<and> active r \<and> booking_id r \<noteq> booking_id new
      \<and> conflict (check_in_date new) (check_out_date new) (check_in_date r) (check_out_date r))"

definition check_booking_overlap :: "booking_row list \<Rightarrow> booking_row \<Rightarrow> db_error + booking_row" where
  "check_booking_overlap rows new =
     (if list_ex (overlap_row new) rows then Inl OverlapException else Inr new)"

subsection \<open>Constraints and statements on \<^verbatim>\<open>bookings\<close>\<close>

text \<open>
  The \<^verbatim>\<open>CHECK\<close> constraints of the table, in the order PostgreSQL evaluates them (by
  name); the two column constraints carry the names PostgreSQL generates.
\<close>

definition check_constraints :: "booking_row \<Rightarrow> db_error + booking_row" where
  "check_constraints b =
     (if booking_status b \<notin> set [''pending'', ''confirmed'', ''cancelled'', ''completed'']
        then Inl (CheckViolation ''bookings_booking_status_check'')
      else if payment_status b \<notin> set [''pending'', ''paid'', ''partial'', ''refunded'']
        then Inl (CheckViolation ''bookings_payment_status_check'')
      else if \<not> check_in_date b < check_out_date b then Inl (CheckViolation ''check_dates'')
      else if \<not> 0 < number_of_guests b then Inl (CheckViolation ''check_guests'')
      else Inr b)"

text \<open>
  \<^verbatim>\<open>INSERT INTO bookings\<close> of one row whose values already have their column types:
  the \<^verbatim>\<open>BEFORE INSERT\<close> trigger, the \<^verbatim>\<open>CHECK\<close> constraints, the primary key, then the
  foreign keys (checked at the end of the statement).
\<close>

definition insert_booking :: "booking_row \<Rightarrow> store \<Rightarrow> db_error + store" where
  "insert_booking new s =
     (case check_booking_overlap (bookings s) new of Inl e \<Rightarrow> Inl e
      | Inr new1 \<Rightarrow>
     (case check_constraints new1 of Inl e \<Rightarrow> Inl e
      | Inr new2 \<Rightarrow>
        if booking_id new2 \<in> set (map booking_id (bookings s)) then Inl UniqueViolation
        else if property_id new2 \<notin> properties s \<or> created_by new2 \<notin> users s
          then Inl ForeignKeyViolation
        else Inr (s\<lparr>bookings := bookings s @ [new2]\<rparr>)))"

text \<open>The trigger function \<^verbatim>\<open>update_updated_at_column\<close>.\<close>

definition update_updated_at_column :: "timestamp \<Rightarrow> booking_row \<Rightarrow> booking_row" where
  "update_updated_at_column now new = new\<lparr>updated_at := now\<rparr>"

text \<open>
  \<^verbatim>\<open>UPDATE bookings SET ... WHERE booking_id = $n AND ...\<close>: \<open>booking_id\<close> is the primary
  key, so the statement touches the row with that key, if it also satisfies the rest of the
  \<^verbatim>\<open>WHERE\<close> clause. The two \<^verbatim>\<open>BEFORE UPDATE\<close> triggers run in the order of their names,
  \<^verbatim>\<open>prevent_booking_overlap\<close> first; the overlap trigger runs on every update, whatever
  columns it sets. The result is the number of rows affected and the new database.
\<close>

definition update_booking ::
  "timestamp \<Rightarrow> uuid \<Rightarrow> (booking_row \<Rightarrow> bool) \<Rightarrow> (booking_row \<Rightarrow> booking_row)
     \<Rightarrow> store \<Rightarrow> db_error + (nat \<times> store)" where
  "update_booking now bid wher setf s =
     (case find (\<lambda>r. booking_id r = bid \<and> wher r) (bookings s) of
        None \<Rightarrow> Inr (0, s)
      | Some old \<Rightarrow>
         (case check_booking_overlap (bookings s) (setf old) of Inl e \<Rightarrow> Inl e
          | Inr new1 \<Rightarrow>
         (case check_constraints (update_updated_at_column now new1) of Inl e \<Rightarrow> Inl e
          | Inr new2 \<Rightarrow>
              Inr (1, s\<lparr>bookings :=
                         map (\<lambda>r. if booking_id r = bid then new2 else r) (bookings s)\<rparr>))))"

subsection \<open>Statements on \<^verbatim>\<open>booking_guests\<close>\<close>

definition insert_guest :: "guest_row \<Rightarrow> store \<Rightarrow> db_error + store" where
  "insert_guest g s =
     (if g_guest_id g \<in> set (map g_guest_id (booking_guests s)) then Inl UniqueViolation
      else if g_booking_id g \<notin> set (map booking_id (bookings s)) then Inl ForeignKeyViolation
      else Inr (s\<lparr>booking_guests := booking_guests s @ [g]\<rparr>))"

section \<open>The service\<close>

record Booking =
  row :: booking_row
  TotalNights :: int
  AdditionalGuests :: "guest_row list"

record CreateGuestRequest =
  gr_GuestName :: string
  gr_GuestIDCard :: "string option"
  gr_GuestContactNumber :: "string option"
  gr_GuestAge :: "int option"
  gr_RelationshipToMainGuest :: "string option"

record CreateBookingRequest =
  cr_PropertyID :: uuid
  cr_GuestName :: string
  cr_GuestIDCard :: string
  cr_GuestContactNumber :: string
  cr_GuestEmail :: "string option"
  cr_CheckInDate :: string
  cr_CheckOutDate :: string
  cr_NumberOfGuests :: int
  cr_BookingNotes :: "string option"
  cr_SpecialRequests :: "string option"
  cr_BookingAmount :: "int option"
  cr_AdditionalGuests :: "CreateGuestRequest list"

record UpdateBookingRequest =
  ur_GuestName :: "string option"
  ur_GuestIDCard :: "string option"
  ur_GuestContactNumber :: "string option"
  ur_GuestEmail :: "string option"
  ur_CheckInDate :: "string option"
  ur_CheckOutDate :: "string option"
  ur_NumberOfGuests :: "int option"
  ur_BookingNotes :: "string option"
  ur_SpecialRequests :: "string option"
  ur_BookingAmount :: "int option"
  ur_BookingStatus :: "string option"
  ur_PaymentStatus :: "string option"

subsection \<open>Reading\<close>

definition getAdditionalGuests :: "store \<Rightarrow> uuid \<Rightarrow> guest_row list" where
  "getAdditionalGuests s bookingID = filter (\<lambda>g. g_booking_id g = bookingID) (booking_guests s)"

text \<open>\<^verbatim>\<open>queryBookings\<close> turns the rows a query selected into \<^verbatim>\<open>Booking\<close> values.\<close>

definition queryBookings :: "store \<Rightarrow> booking_row list \<Rightarrow> Booking list" where
  "queryBookings s rows =
     map (\<lambda>r. \<lparr>row = r, TotalNights = total_nights r,
               AdditionalGuests = getAdditionalGuests s (booking_id r)\<rparr>) rows"

definition GetBookingByID :: "uuid \<Rightarrow> store \<Rightarrow> error + Booking" where
  "GetBookingByID bookingID s =
     (case queryBookings s (filter (\<lambda>r. booking_id r = bookingID) (bookings s)) of
        [] \<Rightarrow> Inl BookingNotFound
      | b # _ \<Rightarrow> Inr b)"

text \<open>
  \<^verbatim>\<open>ORDER BY c ASC\<close> is a stable sort by \<open>c\<close> of the rows in storage order, and
  \<^verbatim>\<open>ORDER BY c DESC\<close> a stable sort by \<open>- c\<close> (SQL leaves the order of ties open).
  The bound of the two listings is a date.
\<close>

definition GetUpcomingBookings :: "date \<Rightarrow> uuid \<Rightarrow> date \<Rightarrow> store \<Rightarrow> Booking list" where
  "GetUpcomingBookings today propertyID upToDate s =
     queryBookings s
       (sort_key check_in_date
          (filter (\<lambda>r. property_id r = propertyID \<and> today \<le> check_in_date r
                       \<and> check_in_date r \<le> upToDate \<and> active r) (bookings s)))"

definition GetPreviousBookings :: "date \<Rightarrow> uuid \<Rightarrow> date \<Rightarrow> store \<Rightarrow> Booking list" where
  "GetPreviousBookings today propertyID backToDate s =
     queryBookings s
       (sort_key (\<lambda>r. - check_out_date r)
          (filter (\<lambda>r. property_id r = propertyID \<and> check_out_date r < today
                       \<and> backToDate \<le> check_out_date r) (bookings s)))"

subsection \<open>Searching\<close>

text \<open>
  SQL \<^verbatim>\<open>LIKE\<close>, pattern first: \<^verbatim>\<open>%\<close> matches any run of characters, \<^verbatim>\<open>_\<close> any one
  character, and a backslash makes the next pattern character literal. (A pattern ending in
  a lone backslash is an error in PostgreSQL; the service's pattern always ends in \<^verbatim>\<open>%\<close>.)
\<close>

fun like_match :: "string \<Rightarrow> string \<Rightarrow> bool" where
  "like_match [] t = (t = [])"
| "like_match (p # ps) t =
     (if p = CHR ''%'' then
        (like_match ps t \<or> (case t of [] \<Rightarrow> False | c # ts \<Rightarrow> like_match (p # ps) ts))
      else if p = CHR 0x5C then
        (case ps of [] \<Rightarrow> False
         | q # qs \<Rightarrow> (case t of [] \<Rightarrow> False | c # ts \<Rightarrow> c = q \<and> like_match qs ts))
      else if p = CHR ''_'' then
        (case t of [] \<Rightarrow> False | c # ts \<Rightarrow> like_match ps ts)
      else
        (case t of [] \<Rightarrow> False | c # ts \<Rightarrow> c = p \<and> like_match ps ts))"

text \<open>\<^verbatim>\<open>LOWER\<close> on the ASCII letters.\<close>

definition lower_char :: "char \<Rightarrow> char" where
  "lower_char c =
     (if (65::nat) \<le> of_char c \<and> of_char c \<le> (90::nat) then char_of (of_char c + (32::nat))
      else c)"

definition sql_LOWER :: "string \<Rightarrow> string" where
  "sql_LOWER v = map lower_char v"

definition SearchBookingsByGuestName :: "uuid \<Rightarrow> string \<Rightarrow> store \<Rightarrow> Booking list" where
  "SearchBookingsByGuestName propertyID guestName s =
     (let searchPattern = ''%'' @ guestName @ ''%''
      in queryBookings s
           (sort_key (\<lambda>r. - check_in_date r)
              (filter (\<lambda>r. property_id r = propertyID
                           \<and> like_match (sql_LOWER searchPattern) (sql_LOWER (guest_name r)))
                 (bookings s))))"

subsection \<open>Creating\<close>

definition bind_db :: "db_error + 'a \<Rightarrow> ('a \<Rightarrow> db_error + 'b) \<Rightarrow> db_error + 'b" where
  "bind_db m f = (case m of Inl e \<Rightarrow> Inl e | Inr x \<Rightarrow> f x)"

text \<open>
  The row of the \<^verbatim>\<open>INSERT INTO bookings\<close>: thirteen columns from the request, the
  others from their defaults.
\<close>

definition booking_values ::
  "timestamp \<Rightarrow> uuid \<Rightarrow> uuid \<Rightarrow> CreateBookingRequest \<Rightarrow> date \<Rightarrow> date
     \<Rightarrow> db_error + booking_row" where
  "booking_values now bookingID userID req checkInDate checkOutDate =
     bind_db (varchar 100 (cr_GuestName req)) (\<lambda>name.
     bind_db (varchar 50 (cr_GuestIDCard req)) (\<lambda>card.
     bind_db (varchar 20 (cr_GuestContactNumber req)) (\<lambda>contact.
     bind_db (varchar_opt 100 (cr_GuestEmail req)) (\<lambda>email.
     bind_db (int4 (cr_NumberOfGuests req)) (\<lambda>n.
     bind_db (decimal_10_2 (cr_BookingAmount req)) (\<lambda>amount.
     Inr \<lparr>booking_id = bookingID, property_id = cr_PropertyID req, created_by = userID,
          guest_name = name, guest_id_card = card, guest_contact_number = contact,
          guest_email = email, check_in_date = checkInDate, check_out_date = checkOutDate,
          number_of_guests = n, booking_notes = cr_BookingNotes req,
          special_requests = cr_SpecialRequests req, booking_status = ''confirmed'',
          booking_amount = amount, payment_status = ''pending'',
          created_at = now, updated_at = now\<rparr>))))))"

definition guest_values ::
  "timestamp \<Rightarrow> uuid \<Rightarrow> uuid \<Rightarrow> CreateGuestRequest \<Rightarrow> db_error + guest_row" where
  "guest_values now guestID bookingID guest =
     bind_db (varchar 100 (gr_GuestName guest)) (\<lambda>name.
     bind_db (varchar_opt 50 (gr_GuestIDCard guest)) (\<lambda>card.
     bind_db (varchar_opt 20 (gr_GuestContactNumber guest)) (\<lambda>contact.
     bind_db (int4_opt (gr_GuestAge guest)) (\<lambda>age.
     bind_db (varchar_opt 50 (gr_RelationshipToMainGuest guest)) (\<lambda>rel.
     Inr \<lparr>g_guest_id = guestID, g_booking_id = bookingID, g_guest_name = name,
          g_guest_id_card = card, g_guest_contact_number = contact, g_guest_age = age,
          g_relationship_to_main_guest = rel, g_created_at = now\<rparr>)))))"

text \<open>
  The loop over \<^verbatim>\<open>req.AdditionalGuests\<close>; \<open>newGuestID i\<close> is what \<^verbatim>\<open>uuid.New()\<close>
  returns in round \<open>i\<close>.
\<close>

fun insert_guests ::
  "timestamp \<Rightarrow> (nat \<Rightarrow> uuid) \<Rightarrow> uuid \<Rightarrow> nat \<Rightarrow> CreateGuestRequest list \<Rightarrow> store
     \<Rightarrow> db_error + store" where
  "insert_guests now newGuestID bookingID i [] s = Inr s"
| "insert_guests now newGuestID bookingID i (guest # rest) s =
     (case bind_db (guest_values now (newGuestID i) bookingID guest) (\<lambda>g. insert_guest g s) of
        Inl e \<Rightarrow> Inl e
      | Inr s' \<Rightarrow> insert_guests now newGuestID bookingID (Suc i) rest s')"

text \<open>
  \<^verbatim>\<open>CreateBooking\<close>. \<open>bookingID\<close> and \<open>newGuestID\<close> stand for the results of
  \<^verbatim>\<open>uuid.New()\<close>. The statements run in a transaction: every error return leaves through
  the deferred \<^verbatim>\<open>tx.Rollback()\<close>, so the database of the result is the one of the call;
  after \<^verbatim>\<open>tx.Commit()\<close> it is the transaction's.
\<close>

definition CreateBooking ::
  "timestamp \<Rightarrow> uuid \<Rightarrow> (nat \<Rightarrow> uuid) \<Rightarrow> uuid \<Rightarrow> CreateBookingRequest \<Rightarrow> store
     \<Rightarrow> (error + Booking) \<times> store" where
  "CreateBooking now bookingID newGuestID userID req s =
     (case time_Parse (cr_CheckInDate req) of
        None \<Rightarrow> (Inl InvalidCheckInDate, s)
      | Some checkInDate \<Rightarrow>
     (case time_Parse (cr_CheckOutDate req) of
        None \<Rightarrow> (Inl InvalidCheckOutDate, s)
      | Some checkOutDate \<Rightarrow>
     (case bind_db (booking_values now bookingID userID req checkInDate checkOutDate)
             (\<lambda>new. insert_booking new s) of
        Inl e \<Rightarrow> (Inl (DbError e), s)
      | Inr tx1 \<Rightarrow>
     (case insert_guests now newGuestID bookingID 0 (cr_AdditionalGuests req) tx1 of
        Inl e \<Rightarrow> (Inl (DbError e), s)
      | Inr tx2 \<Rightarrow> (GetBookingByID bookingID tx2, tx2)))))"

subsection \<open>Cancelling\<close>

definition CancelBooking :: "date \<Rightarrow> timestamp \<Rightarrow> uuid \<Rightarrow> store \<Rightarrow> (error + unit) \<times> store" where
  "CancelBooking today now bookingID s =
     (case update_booking now bookingID (\<lambda>r. today \<le> check_in_date r \<and> active r)
             (\<lambda>r. r\<lparr>booking_status := ''cancelled'', updated_at := now\<rparr>) s of
        Inl e \<Rightarrow> (Inl (DbError e), s)
      | Inr (rowsAffected, s') \<Rightarrow>
          if rowsAffected = 0 then (Inl NotFoundOrNotCancellable, s') else (Inr (), s'))"

subsection \<open>Updating\<close>

text \<open>One element of \<^verbatim>\<open>setParts\<close> together with its argument in \<^verbatim>\<open>args\<close>.\<close>

datatype set_part =
    Set_guest_name string
  | Set_guest_id_card string
  | Set_guest_contact_number string
  | Set_guest_email string
  | Set_check_in_date date
  | Set_check_out_date date
  | Set_number_of_guests int
  | Set_booking_notes string
  | Set_special_requests string
  | Set_booking_amount int
  | Set_booking_status string
  | Set_payment_status string
  | Set_updated_at

definition opt_part :: "('a \<Rightarrow> set_part) \<Rightarrow> 'a option \<Rightarrow> set_part list" where
  "opt_part f v = (case v of None \<Rightarrow> [] | Some x \<Rightarrow> [f x])"

definition date_part ::
  "(date \<Rightarrow> set_part) \<Rightarrow> error \<Rightarrow> string option \<Rightarrow> error + set_part list" where
  "date_part f e v =
     (case v of None \<Rightarrow> Inr []
      | Some x \<Rightarrow> (case time_Parse x of None \<Rightarrow> Inl e | Some d \<Rightarrow> Inr [f d]))"

text \<open>
  The twelve \<^verbatim>\<open>if req.X != nil\<close> blocks in their order; only the two date blocks can
  return an error.
\<close>

definition setParts :: "UpdateBookingRequest \<Rightarrow> error + set_part list" where
  "setParts req =
     (case date_part Set_check_in_date InvalidCheckInDate (ur_CheckInDate req) of
        Inl e \<Rightarrow> Inl e
      | Inr checkIn \<Rightarrow>
     (case date_part Set_check_out_date InvalidCheckOutDate (ur_CheckOutDate req) of
        Inl e \<Rightarrow> Inl e
      | Inr checkOut \<Rightarrow>
          Inr (opt_part Set_guest_name (ur_GuestName req)
               @ opt_part Set_guest_id_card (ur_GuestIDCard req)
               @ opt_part Set_guest_contact_number (ur_GuestContactNumber req)
               @ opt_part Set_guest_email (ur_GuestEmail req)
               @ checkIn @ checkOut
               @ opt_part Set_number_of_guests (ur_NumberOfGuests req)
               @ opt_part Set_booking_notes (ur_BookingNotes req)
               @ opt_part Set_special_requests (ur_SpecialRequests req)
               @ opt_part Set_booking_amount (ur_BookingAmount req)
               @ opt_part Set_booking_status (ur_BookingStatus req)
               @ opt_part Set_payment_status (ur_PaymentStatus req))))"

text \<open>The argument of a \<^verbatim>\<open>SET\<close> item converted to the type of its column.\<close>

fun typed_part :: "set_part \<Rightarrow> db_error + set_part" where
  "typed_part (Set_guest_name v) = bind_db (varchar 100 v) (\<lambda>x. Inr (Set_guest_name x))"
| "typed_part (Set_guest_id_card v) = bind_db (varchar 50 v) (\<lambda>x. Inr (Set_guest_id_card x))"
| "typed_part (Set_guest_contact_number v) =
     bind_db (varchar 20 v) (\<lambda>x. Inr (Set_guest_contact_number x))"
| "typed_part (Set_guest_email v) = bind_db (varchar 100 v) (\<lambda>x. Inr (Set_guest_email x))"
| "typed_part (Set_number_of_guests v) = bind_db (int4 v) (\<lambda>x. Inr (Set_number_of_guests x))"
| "typed_part (Set_booking_amount v) =
     bind_db (decimal_10_2 (Some v)) (\<lambda>x. Inr (Set_booking_amount v))"
| "typed_part (Set_booking_status v) = bind_db (varchar 20 v) (\<lambda>x. Inr (Set_booking_status x))"
| "typed_part (Set_payment_status v) = bind_db (varchar 20 v) (\<lambda>x. Inr (Set_payment_status x))"
| "typed_part p = Inr p"

fun typed_parts :: "set_part list \<Rightarrow> db_error + set_part list" where
  "typed_parts [] = Inr []"
| "typed_parts (p # ps) =
     (case typed_part p of Inl e \<Rightarrow> Inl e
      | Inr q \<Rightarrow> (case typed_parts ps of Inl e \<Rightarrow> Inl e | Inr qs \<Rightarrow> Inr (q # qs)))"

fun assign :: "timestamp \<Rightarrow> set_part \<Rightarrow> booking_row \<Rightarrow> booking_row" where
  "assign now (Set_guest_name v) r = r\<lparr>guest_name := v\<rparr>"
| "assign now (Set_guest_id_card v) r = r\<lparr>guest_id_card := v\<rparr>"
| "assign now (Set_guest_contact_number v) r = r\<lparr>guest_contact_number := v\<rparr>"
| "assign now (Set_guest_email v) r = r\<lparr>guest_email := Some v\<rparr>"
| "assign now (Set_check_in_date v) r = r\<lparr>check_in_date := v\<rparr>"
| "assign now (Set_check_out_date v) r = r\<lparr>check_out_date := v\<rparr>"
| "assign now (Set_number_of_guests v) r = r\<lparr>number_of_guests := v\<rparr>"
| "assign now (Set_booking_notes v) r = r\<lparr>booking_notes := Some v\<rparr>"
| "assign now (Set_special_requests v) r = r\<lparr>special_requests := Some v\<rparr>"
| "assign now (Set_booking_amount v) r = r\<lparr>booking_amount := Some v\<rparr>"
| "assign now (Set_booking_status v) r = r\<lparr>booking_status := v\<rparr>"
| "assign now (Set_payment_status v) r = r\<lparr>payment_status := v\<rparr>"
| "assign now Set_updated_at r = r\<lparr>updated_at := now\<rparr>"

text \<open>
  \<^verbatim>\<open>UpdateBooking\<close>: the single \<^verbatim>\<open>UPDATE\<close> statement runs outside any transaction,
  so it commits or fails on its own.
\<close>

definition UpdateBooking ::
  "timestamp \<Rightarrow> uuid \<Rightarrow> UpdateBookingRequest \<Rightarrow> store \<Rightarrow> (error + Booking) \<times> store" where
  "UpdateBooking now bookingID req s =
     (case setParts req of
        Inl e \<Rightarrow> (Inl e, s)
      | Inr parts \<Rightarrow>
          if length parts = 0 then (Inl NoFieldsToUpdate, s)
          else
            (case bind_db (typed_parts (parts @ [Set_updated_at]))
                    (\<lambda>ps. update_booking now bookingID (\<lambda>r. True)
                            (\<lambda>r. fold (assign now) ps r) s) of
               Inl e \<Rightarrow> (Inl (DbError e), s)
             | Inr (rowsAffected, s') \<Rightarrow>
                 if rowsAffected = 0 then (Inl BookingNotFound, s')
                 else (GetBookingByID bookingID s', s')))"

section \<open>Sequences of calls\<close>

text \<open>
  A call of one of the three writing operations with all its inputs (the clock and the
  fresh identifiers included), and the database after a sequence of calls.
\<close>

datatype command =
    Create timestamp uuid "nat \<Rightarrow> uuid" uuid CreateBookingRequest
  | Update timestamp uuid UpdateBookingRequest
  | Cancel date timestamp uuid

fun step :: "command \<Rightarrow> store \<Rightarrow> store" where
  "step (Create now bookingID newGuestID userID req) s =
     snd (CreateBooking now bookingID newGuestID userID req s)"
| "step (Update now bookingID req) s = snd (UpdateBooking now bookingID req s)"
| "step (Cancel today now bookingID) s = snd (CancelBooking today now bookingID s)"

definition run :: "command list \<Rightarrow> store \<Rightarrow> store" where
  "run cs s = fold step cs s"

text \<open>
  What the constraints of the schema and the overlap trigger maintain on \<^verbatim>\<open>bookings\<close>:
  the primary key, the \<^verbatim>\<open>CHECK\<close> constraints, and no two active bookings of a property
  with intersecting stays.
\<close>

definition intersecting :: "booking_row \<Rightarrow> booking_row \<Rightarrow> bool" where
  "intersecting a b =
     (check_in_date a < check_out_date b \<and> check_in_date b < check_out_date a)"

definition rivals :: "booking_row \<Rightarrow> booking_row \<Rightarrow> bool" where
  "rivals a b =
     (booking_id a \<noteq> booking_id b \<and> property_id a = property_id b \<and> active a \<and> active b)"

definition store_inv :: "booking_row list \<Rightarrow> bool" where
  "store_inv rows =
     (distinct (map booking_id rows)
      \<and> list_all (\<lambda>r. check_constraints r = Inr r) rows
      \<and> list_all (\<lambda>a. list_all (\<lambda>b. \<not> (rivals a b \<and> intersecting a b)) rows) rows)"

section \<open>Classes of errors\<close>

text \<open>
  The service returns plain Go errors. Those that report a malformed request are the two
  date-format errors, a value that does not fit its column, and a violation of
  \<^verbatim>\<open>check_dates\<close> or \<^verbatim>\<open>check_guests\<close>; the exception of the overlap trigger reports a
  conflict with another booking instead.
\<close>

definition validation_error :: "error \<Rightarrow> bool" where
  "validation_error e =
     (e = InvalidCheckInDate \<or> e = InvalidCheckOutDate \<or> e = DbError DataException
      \<or> e = DbError (CheckViolation ''check_dates'')
      \<or> e = DbError (CheckViolation ''check_guests''))"

section \<open>The search as the specification words it\<close>

text \<open>
  A case-insensitive substring match, in the words of the specification and not of the
  query: some position of the name, lower-cased, starts with the lower-cased search
  string.
\<close>

definition contains_ignoring_case :: "string \<Rightarrow> string \<Rightarrow> bool" where
  "contains_ignoring_case name search =
     list_ex (\<lambda>i. take (length search) (drop i (sql_LOWER name)) = sql_LOWER search)
       [0 ..< Suc (length name)]"

section \<open>The partial update as the specification words it\<close>

text \<open>
  Each supplied field of the request replaces the stored value, every other column keeps
  its value, and \<^verbatim>\<open>updated_at\<close> is refreshed. A supplied string is stored as its column
  type holds it (\<^verbatim>\<open>VARCHAR(n)\<close> holds at most \<open>n\<close> characters), a supplied date as the day
  it parses to.
\<close>

definition supplied :: "'a option \<Rightarrow> 'a \<Rightarrow> 'a" where
  "supplied v old = (case v of None \<Rightarrow> old | Some x \<Rightarrow> x)"

definition supplied_date :: "string option \<Rightarrow> date \<Rightarrow> date" where
  "supplied_date v old =
     (case v of None \<Rightarrow> old
      | Some x \<Rightarrow> (case time_Parse x of None \<Rightarrow> old | Some d \<Rightarrow> d))"

definition merge_request :: "timestamp \<Rightarrow> UpdateBookingRequest \<Rightarrow> booking_row \<Rightarrow> booking_row" where
  "merge_request now req old =
     old\<lparr>guest_name := supplied (map_option (take 100) (ur_GuestName req)) (guest_name old),
         guest_id_card := supplied (map_option (take 50) (ur_GuestIDCard req)) (guest_id_card old),
         guest_contact_number :=
           supplied (map_option (take 20) (ur_GuestContactNumber req)) (guest_contact_number old),
         guest_email :=
           supplied (map_option (\<lambda>v. Some (take 100 v)) (ur_GuestEmail req)) (guest_email old),
         check_in_date := supplied_date (ur_CheckInDate req) (check_in_date old),
         check_out_date := supplied_date (ur_CheckOutDate req) (check_out_date old),
         number_of_guests := supplied (ur_NumberOfGuests req) (number_of_guests old),
         booking_notes := supplied (map_option Some (ur_BookingNotes req)) (booking_notes old),
         special_requests :=
           supplied (map_option Some (ur_SpecialRequests req)) (special_requests old),
         booking_amount := supplied (map_option Some (ur_BookingAmount req)) (booking_amount old),
         booking_status :=
           supplied (map_option (take 20) (ur_BookingStatus req)) (booking_status old),
         payment_status :=
           supplied (map_option (take 20) (ur_PaymentStatus req)) (payment_status old),
         updated_at := now\<rparr>"

text \<open>The request that supplies \<^verbatim>\<open>booking_notes\<close> and nothing else.\<close>

definition notes_only :: "string \<Rightarrow> UpdateBookingRequest" where
  "notes_only v =
     \<lparr>ur_GuestName = None, ur_GuestIDCard = None, ur_GuestContactNumber = None,
      ur_GuestEmail = None, ur_CheckInDate = None, ur_CheckOutDate = None,
      ur_NumberOfGuests = None, ur_BookingNotes = Some v, ur_SpecialRequests = None,
      ur_BookingAmount = None, ur_BookingStatus = None, ur_PaymentStatus = None\<rparr>"

section \<open>The calendar of a month\<close>







section \<open>Requests whose values fit their columns\<close>

text \<open>
  A create request none of whose values exceeds its column, and the rows it asks for: the
  row of the \<^verbatim>\<open>INSERT INTO bookings\<close> and the rows of the additional guests, guest
  \<open>i\<close> with the identifier \<open>newGuestID i\<close>.
\<close>

definition fits_opt :: "nat \<Rightarrow> string option \<Rightarrow> bool" where
  "fits_opt n v = (case v of None \<Rightarrow> True | Some x \<Rightarrow> length x \<le> n)"

definition guest_fits :: "CreateGuestRequest \<Rightarrow> bool" where
  "guest_fits g =
     (length (gr_GuestName g) \<le> 100 \<and> fits_opt 50 (gr_GuestIDCard g)
      \<and> fits_opt 20 (gr_GuestContactNumber g)
      \<and> (case gr_GuestAge g of None \<Rightarrow> True
          | Some a \<Rightarrow> - 2147483648 \<le> a \<and> a \<le> 2147483647)
      \<and> fits_opt 50 (gr_RelationshipToMainGuest g))"

definition request_fits :: "CreateBookingRequest \<Rightarrow> bool" where
  "request_fits req =
     (length (cr_GuestName req) \<le> 100 \<and> length (cr_GuestIDCard req) \<le> 50
      \<and> length (cr_GuestContactNumber req) \<le> 20 \<and> fits_opt 100 (cr_GuestEmail req)
      \<and> - 2147483648 \<le> cr_NumberOfGuests req \<and> cr_NumberOfGuests req \<le> 2147483647
      \<and> (case cr_BookingAmount req of None \<Rightarrow> True
          | Some x \<Rightarrow> - 10000000000 < x \<and> x < 10000000000)
      \<and> list_all guest_fits (cr_AdditionalGuests req))"

definition requested_row ::
  "timestamp \<Rightarrow> uuid \<Rightarrow> uuid \<Rightarrow> CreateBookingRequest \<Rightarrow> date \<Rightarrow> date \<Rightarrow> booking_row" where
  "requested_row now bookingID userID req checkInDate checkOutDate =
     \<lparr>booking_id = bookingID, property_id = cr_PropertyID req, created_by = userID,
      guest_name = cr_GuestName req, guest_id_card = cr_GuestIDCard req,
      guest_contact_number = cr_GuestContactNumber req, guest_email = cr_GuestEmail req,
      check_in_date = checkInDate, check_out_date = checkOutDate,
      number_of_guests = cr_NumberOfGuests req, booking_notes = cr_BookingNotes req,
      special_requests = cr_SpecialRequests req, booking_status = ''confirmed'',
      booking_amount = cr_BookingAmount req, payment_status = ''pending'',
      created_at = now, updated_at = now\<rparr>"

definition requested_guest :: "timestamp \<Rightarrow> uuid \<Rightarrow> uuid \<Rightarrow> CreateGuestRequest \<Rightarrow> guest_row" where
  "requested_guest now guestID bookingID guest =
     \<lparr>g_guest_id = guestID, g_booking_id = bookingID, g_guest_name = gr_GuestName guest,
      g_guest_id_card = gr_GuestIDCard guest,
      g_guest_contact_number = gr_GuestContactNumber guest, g_guest_age = gr_GuestAge guest,
      g_relationship_to_main_guest = gr_RelationshipToMainGuest guest, g_created_at = now\<rparr>"

fun requested_guests ::
  "timestamp \<Rightarrow> (nat \<Rightarrow> uuid) \<Rightarrow> uuid \<Rightarrow> nat \<Rightarrow> CreateGuestRequest list \<Rightarrow> guest_row list" where
  "requested_guests now newGuestID bookingID i [] = []"
| "requested_guests now newGuestID bookingID i (guest # rest) =
     requested_guest now (newGuestID i) bookingID guest
     # requested_guests now newGuestID bookingID (Suc i) rest"

text \<open>
  The identifiers \<^verbatim>\<open>uuid.New()\<close> hands to a call are new: the booking identifier is not
  in \<^verbatim>\<open>bookings\<close>, and the guest identifiers differ from each other and from those in
  \<^verbatim>\<open>booking_guests\<close>.
\<close>

definition fresh_ids :: "uuid \<Rightarrow> (nat \<Rightarrow> uuid) \<Rightarrow> nat \<Rightarrow> store \<Rightarrow> bool" where
  "fresh_ids bookingID newGuestID n s =
     (bookingID \<notin> set (map booking_id (bookings s))
      \<and> distinct (map newGuestID [0 ..< n] @ map g_guest_id (booking_guests s)))"

text \<open>No active booking of the property conflicts with a stay.\<close>

definition stay_free :: "uuid \<Rightarrow> date \<Rightarrow> date \<Rightarrow> store \<Rightarrow> bool" where
  "stay_free propertyID checkIn checkOut s =
     (\<not> list_ex (\<lambda>r. property_id r = propertyID \<and> active r
                     \<and> conflict checkIn checkOut (check_in_date r) (check_out_date r))
           (bookings s))"

text \<open>
  The database after a creation that stores what the request asks for: the requested row at
  the end of \<^verbatim>\<open>bookings\<close>, the requested guests at the end of \<^verbatim>\<open>booking_guests\<close>.
\<close>

definition created ::
  "timestamp \<Rightarrow> uuid \<Rightarrow> (nat \<Rightarrow> uuid) \<Rightarrow> uuid \<Rightarrow> CreateBookingRequest \<Rightarrow> date \<Rightarrow> date
     \<Rightarrow> store \<Rightarrow> store" where
  "created now bookingID newGuestID userID req checkInDate checkOutDate s =
     s\<lparr>bookings := bookings s @ [requested_row now bookingID userID req checkInDate checkOutDate],
       booking_guests := booking_guests s
         @ requested_guests now newGuestID bookingID 0 (cr_AdditionalGuests req)\<rparr>"

section \<open>Update requests the database accepts\<close>

text \<open>
  An update request supplies a field, its date strings parse, and none of its values
  exceeds its column.
\<close>

definition some_field :: "UpdateBookingRequest \<Rightarrow> bool" where
  "some_field req =
     (ur_GuestName req \<noteq> None \<or> ur_GuestIDCard req \<noteq> None \<or> ur_GuestContactNumber req \<noteq> None
      \<or> ur_GuestEmail req \<noteq> None \<or> ur_CheckInDate req \<noteq> None \<or> ur_CheckOutDate req \<noteq> None
      \<or> ur_NumberOfGuests req \<noteq> None \<or> ur_BookingNotes req \<noteq> None
      \<or> ur_SpecialRequests req \<noteq> None \<or> ur_BookingAmount req \<noteq> None
      \<or> ur_BookingStatus req \<noteq> None \<or> ur_PaymentStatus req \<noteq> None)"

definition parses :: "string option \<Rightarrow> bool" where
  "parses v = (case v of None \<Rightarrow> True | Some x \<Rightarrow> time_Parse x \<noteq> None)"

definition dates_parse :: "UpdateBookingRequest \<Rightarrow> bool" where
  "dates_parse req = (parses (ur_CheckInDate req) \<and> parses (ur_CheckOutDate req))"

definition update_fits :: "UpdateBookingRequest \<Rightarrow> bool" where
  "update_fits req =
     (fits_opt 100 (ur_GuestName req) \<and> fits_opt 50 (ur_GuestIDCard req)
      \<and> fits_opt 20 (ur_GuestContactNumber req) \<and> fits_opt 100 (ur_GuestEmail req)
      \<and> (case ur_NumberOfGuests req of None \<Rightarrow> True
          | Some n \<Rightarrow> - 2147483648 \<le> n \<and> n \<le> 2147483647)
      \<and> (case ur_BookingAmount req of None \<Rightarrow> True
          | Some x \<Rightarrow> - 10000000000 < x \<and> x < 10000000000)
      \<and> fits_opt 20 (ur_BookingStatus req) \<and> fits_opt 20 (ur_PaymentStatus req))"

text \<open>
  The database after an update that replaces the row \<open>old\<close> by its merge with the request,
  and the booking \<^verbatim>\<open>UpdateBooking\<close> then returns.
\<close>

definition updated :: "timestamp \<Rightarrow> UpdateBookingRequest \<Rightarrow> booking_row \<Rightarrow> store \<Rightarrow> store" where
  "updated now req old s =
     s\<lparr>bookings := map (\<lambda>r. if booking_id r = booking_id old then merge_request now req old
                              else r) (bookings s)\<rparr>"

definition updated_booking ::
  "timestamp \<Rightarrow> UpdateBookingRequest \<Rightarrow> booking_row \<Rightarrow> store \<Rightarrow> Booking" where
  "updated_booking now req old s =
     \<lparr>row = merge_request now req old, TotalNights = total_nights (merge_request now req old),
      AdditionalGuests = getAdditionalGuests s (booking_id old)\<rparr>"

text \<open>The request that supplies one or both dates and nothing else.\<close>

definition dates_only :: "string option \<Rightarrow> string option \<Rightarrow> UpdateBookingRequest" where
  "dates_only checkIn checkOut =
     \<lparr>ur_GuestName = None, ur_GuestIDCard = None, ur_GuestContactNumber = None,
      ur_GuestEmail = None, ur_CheckInDate = checkIn, ur_CheckOutDate = checkOut,
      ur_NumberOfGuests = None, ur_BookingNotes = None, ur_SpecialRequests = None,
      ur_BookingAmount = None, ur_BookingStatus = None, ur_PaymentStatus = None\<rparr>"

section \<open>Sample data\<close>

text \<open>
  A database with one user and one property, the request of the usage example in
  \<^verbatim>\<open>main.go\<close> with the name and the stay as arguments, and two calls that create
  touching stays.
\<close>

definition demo_store :: store where
  "demo_store = \<lparr>users = {1}, properties = {7}, bookings = [], booking_guests = []\<rparr>"

definition demo_request :: "string \<Rightarrow> string \<Rightarrow> string \<Rightarrow> CreateBookingRequest" where
  "demo_request name checkIn checkOut =
     \<lparr>cr_PropertyID = 7, cr_GuestName = name, cr_GuestIDCard = ''ID123456'',
      cr_GuestContactNumber = ''+1234567890'', cr_GuestEmail = Some ''john@example.com'',
      cr_CheckInDate = checkIn, cr_CheckOutDate = checkOut, cr_NumberOfGuests = 2,
      cr_BookingNotes = Some ''Anniversary celebration'', cr_SpecialRequests = None,
      cr_BookingAmount = Some 50000,
      cr_AdditionalGuests =
        [\<lparr>gr_GuestName = ''Jane Doe'', gr_GuestIDCard = Some ''ID123457'',
          gr_GuestContactNumber = Some ''+1234567891'', gr_GuestAge = Some 30,
          gr_RelationshipToMainGuest = Some ''spouse''\<rparr>]\<rparr>"

definition demo_commands :: "command list" where
  "demo_commands =
     [Create 0 10 (\<lambda>i. 100 + i) 1 (demo_request ''John Doe'' ''2024-01-15'' ''2024-01-20''),
      Create 1 11 (\<lambda>i. 200 + i) 1 (demo_request ''Bob'' ''2024-01-20'' ''2024-01-22'')]"

text \<open>
  The two calls above, then the first booking is cancelled and a third one is created
  inside its stay.
\<close>

definition demo_commands_rebooked :: "command list" where
  "demo_commands_rebooked =
     demo_commands @
     [Cancel (Date 2024 1 1) 2 10,
      Create 3 12 (\<lambda>i. 300 + i) 1 (demo_request ''Eve'' ''2024-01-18'' ''2024-01-20'')]"


section \<open>Properties\<close>

subsection \<open>The calendar\<close>




































subsection \<open>The statements and the invariant\<close>

lemma intersecting_conflict:
  "intersecting a b \<Longrightarrow>
   conflict (check_in_date a) (check_out_date a) (check_in_date b) (check_out_date b)"
  unfolding intersecting_def conflict_def by linarith

lemma conflict_intersecting:
  "check_in_date a < check_out_date a \<Longrightarrow> check_in_date b < check_out_date b \<Longrightarrow>
   conflict (check_in_date a) (check_out_date a) (check_in_date b) (check_out_date b) \<Longrightarrow>
   intersecting a b"
  unfolding intersecting_def conflict_def by linarith

lemma intersecting_sym: "intersecting a b = intersecting b a"
  unfolding intersecting_def by auto

lemma rivals_sym: "rivals a b = rivals b a"
  unfolding rivals_def by auto

lemma store_inv_iff:
  "store_inv rows \<longleftrightarrow>
     distinct (map booking_id rows)
     \<and> (\<forall>r\<in>set rows. check_constraints r = Inr r)
     \<and> (\<forall>a\<in>set rows. \<forall>b\<in>set rows. rivals a b \<longrightarrow> \<not> intersecting a b)"
  unfolding store_inv_def list_all_iff by auto

lemma check_booking_overlap_Inr:
  "check_booking_overlap rows new = Inr x \<longleftrightarrow>
     x = new \<and> (\<forall>r\<in>set rows. \<not> overlap_row new r)"
  unfolding check_booking_overlap_def list_ex_iff by auto

lemma check_constraints_Inr:
  "check_constraints b = Inr x \<longleftrightarrow>
     x = b \<and> booking_status b \<in> {''pending'', ''confirmed'', ''cancelled'', ''completed''}
     \<and> payment_status b \<in> {''pending'', ''paid'', ''partial'', ''refunded''}
     \<and> check_in_date b < check_out_date b \<and> 0 < number_of_guests b"
  unfolding check_constraints_def by auto

lemma insert_booking_Inr:
  "insert_booking new s = Inr s' \<longleftrightarrow>
     (\<forall>r\<in>set (bookings s). \<not> overlap_row new r)
     \<and> check_constraints new = Inr new
     \<and> booking_id new \<notin> booking_id ` set (bookings s)
     \<and> property_id new \<in> properties s \<and> created_by new \<in> users s
     \<and> s' = s\<lparr>bookings := bookings s @ [new]\<rparr>"
proof (cases "check_booking_overlap (bookings s) new")
  case (Inl e)
  then show ?thesis
    using check_booking_overlap_Inr[of "bookings s" new new]
    by (simp add: insert_booking_def)
next
  case (Inr new1)
  then have n1: "new1 = new" and ov: "\<forall>r\<in>set (bookings s). \<not> overlap_row new r"
    by (simp_all add: check_booking_overlap_Inr)
  show ?thesis
  proof (cases "check_constraints new")
    case (Inl e)
    then show ?thesis using Inr n1 by (simp add: insert_booking_def)
  next
    case c: (Inr new2)
    then have n2: "new2 = new" by (simp add: check_constraints_Inr)
    show ?thesis using Inr n1 c n2 ov
      by (simp add: insert_booking_def) blast
  qed
qed

lemma not_overlap_row_rivals:
  "\<not> overlap_row new r \<Longrightarrow> rivals new r \<Longrightarrow> \<not> intersecting new r"
  unfolding overlap_row_def rivals_def using intersecting_conflict by auto

lemma store_inv_insert:
  assumes inv: "store_inv rows" and ov: "\<forall>r\<in>set rows. \<not> overlap_row new r"
    and dt: "check_constraints new = Inr new"
    and fresh: "booking_id new \<notin> booking_id ` set rows"
  shows "store_inv (rows @ [new])"
proof -
  have d: "distinct (map booking_id (rows @ [new]))"
    using inv fresh by (simp add: store_inv_iff)
  have v: "\<forall>r\<in>set (rows @ [new]). check_constraints r = Inr r"
    using inv dt by (simp add: store_inv_iff)
  have n: "\<And>r. r \<in> set rows \<Longrightarrow> rivals new r \<Longrightarrow> \<not> intersecting new r"
    using ov not_overlap_row_rivals by blast
  have p: "\<And>a b. a \<in> set (rows @ [new]) \<Longrightarrow> b \<in> set (rows @ [new]) \<Longrightarrow> rivals a b
             \<Longrightarrow> \<not> intersecting a b"
  proof -
    fix a b assume a: "a \<in> set (rows @ [new])" and b: "b \<in> set (rows @ [new])"
      and r: "rivals a b"
    consider "a \<in> set rows" "b \<in> set rows" | "a = new" "b \<in> set rows"
      | "a \<in> set rows" "b = new" | "a = new" "b = new"
      using a b by auto
    then show "\<not> intersecting a b"
    proof cases
      case 1 then show ?thesis using inv r by (simp add: store_inv_iff)
    next
      case 2 then show ?thesis using n r by simp
    next
      case 3 then show ?thesis using n[of a] r rivals_sym[of a b] intersecting_sym[of a b] by simp
    next
      case 4 then show ?thesis using r by (simp add: rivals_def)
    qed
  qed
  have "\<forall>a\<in>set (rows @ [new]). \<forall>b\<in>set (rows @ [new]). rivals a b \<longrightarrow> \<not> intersecting a b"
    using p by (intro ballI impI)
  with d v show ?thesis by (simp only: store_inv_iff)
qed


lemma bind_db_Inr: "bind_db m f = Inr y \<longleftrightarrow> (\<exists>x. m = Inr x \<and> f x = Inr y)"
  unfolding bind_db_def by (cases m) simp_all

lemma insert_guest_Inr:
  "insert_guest g s = Inr s' \<longleftrightarrow>
     g_guest_id g \<notin> g_guest_id ` set (booking_guests s)
     \<and> g_booking_id g \<in> booking_id ` set (bookings s)
     \<and> s' = s\<lparr>booking_guests := booking_guests s @ [g]\<rparr>"
  unfolding insert_guest_def by auto

lemma insert_guests_frame:
  "insert_guests now newGuestID bookingID i gs s = Inr s' \<Longrightarrow>
   bookings s' = bookings s \<and> users s' = users s \<and> properties s' = properties s"
proof (induction gs arbitrary: i s)
  case Nil
  then show ?case by simp
next
  case (Cons guest rest)
  from Cons.prems obtain s1 where
    a: "bind_db (guest_values now (newGuestID i) bookingID guest) (\<lambda>g. insert_guest g s) = Inr s1"
    and b: "insert_guests now newGuestID bookingID (Suc i) rest s1 = Inr s'"
    by (auto split: sum.splits)
  from a obtain g where "insert_guest g s = Inr s1" by (auto simp: bind_db_Inr)
  then have "s1 = s\<lparr>booking_guests := booking_guests s @ [g]\<rparr>" by (simp add: insert_guest_Inr)
  then have "bookings s1 = bookings s \<and> users s1 = users s \<and> properties s1 = properties s"
    by simp
  with Cons.IH[OF b] show ?case by simp
qed

lemma booking_values_Inr:
  "booking_values now bookingID userID req ci co = Inr new \<Longrightarrow>
   booking_id new = bookingID \<and> property_id new = cr_PropertyID req
   \<and> check_in_date new = ci \<and> check_out_date new = co \<and> booking_status new = ''confirmed''
   \<and> payment_status new = ''pending''
   \<and> number_of_guests new = cr_NumberOfGuests req \<and> created_by new = userID"
  unfolding booking_values_def by (auto simp: bind_db_Inr int4_def split: if_splits)

lemma GetBookingByID_found:
  "r \<in> set (bookings s) \<Longrightarrow> booking_id r = bookingID \<Longrightarrow> \<exists>b. GetBookingByID bookingID s = Inr b"
proof -
  assume "r \<in> set (bookings s)" "booking_id r = bookingID"
  then have "filter (\<lambda>r. booking_id r = bookingID) (bookings s) \<noteq> []"
    by (auto simp: filter_empty_conv)
  then show ?thesis
    by (cases "filter (\<lambda>r. booking_id r = bookingID) (bookings s)")
       (simp_all add: GetBookingByID_def queryBookings_def)
qed

lemma CreateBooking_cases:
  obtains (failed) e where "CreateBooking now bookingID newGuestID userID req s = (Inl e, s)"
  | (committed) b new tx1 tx2 ci co where
      "CreateBooking now bookingID newGuestID userID req s = (Inr b, tx2)"
      "time_Parse (cr_CheckInDate req) = Some ci" "time_Parse (cr_CheckOutDate req) = Some co"
      "booking_values now bookingID userID req ci co = Inr new"
      "insert_booking new s = Inr tx1"
      "insert_guests now newGuestID bookingID 0 (cr_AdditionalGuests req) tx1 = Inr tx2"
proof (cases "time_Parse (cr_CheckInDate req)")
  case None
  then show ?thesis using failed by (simp add: CreateBooking_def)
next
  case ci: (Some ci)
  show ?thesis
  proof (cases "time_Parse (cr_CheckOutDate req)")
    case None
    then show ?thesis using failed ci by (simp add: CreateBooking_def)
  next
    case co: (Some co)
    show ?thesis
    proof (cases "bind_db (booking_values now bookingID userID req ci co) (\<lambda>new. insert_booking new s)")
      case (Inl e)
      then show ?thesis using failed ci co by (simp add: CreateBooking_def)
    next
      case tx1: (Inr tx1)
      then obtain new where new: "booking_values now bookingID userID req ci co = Inr new"
        and ins: "insert_booking new s = Inr tx1"
        by (auto simp: bind_db_Inr)
      show ?thesis
      proof (cases "insert_guests now newGuestID bookingID 0 (cr_AdditionalGuests req) tx1")
        case (Inl e)
        then show ?thesis using failed ci co tx1 by (simp add: CreateBooking_def)
      next
        case tx2: (Inr tx2)
        have "bookings tx1 = bookings s @ [new]" using ins by (simp add: insert_booking_Inr)
        then have "new \<in> set (bookings tx2)" using insert_guests_frame[OF tx2] by simp
        moreover have "booking_id new = bookingID" using booking_values_Inr[OF new] by simp
        ultimately obtain b where "GetBookingByID bookingID tx2 = Inr b"
          using GetBookingByID_found by blast
        then have "CreateBooking now bookingID newGuestID userID req s = (Inr b, tx2)"
          using ci co tx1 tx2 by (simp add: CreateBooking_def)
        then show ?thesis using committed ci co new ins tx2 by blast
      qed
    qed
  qed
qed


lemma update_booking_cases:
  obtains (error) e where "update_booking now bid wher setf s = Inl e"
  | (none) "update_booking now bid wher setf s = Inr (0, s)"
      "find (\<lambda>r. booking_id r = bid \<and> wher r) (bookings s) = None"
  | (one) old new where
      "find (\<lambda>r. booking_id r = bid \<and> wher r) (bookings s) = Some old"
      "new = update_updated_at_column now (setf old)"
      "\<forall>r\<in>set (bookings s). \<not> overlap_row (setf old) r"
      "check_constraints new = Inr new"
      "update_booking now bid wher setf s =
         Inr (1, s\<lparr>bookings := map (\<lambda>r. if booking_id r = bid then new else r) (bookings s)\<rparr>)"
proof (cases "find (\<lambda>r. booking_id r = bid \<and> wher r) (bookings s)")
  case None
  then show ?thesis using none by (simp add: update_booking_def)
next
  case old: (Some old)
  show ?thesis
  proof (cases "check_booking_overlap (bookings s) (setf old)")
    case (Inl e)
    then show ?thesis using error old by (simp add: update_booking_def)
  next
    case n1: (Inr new1)
    then have e1: "new1 = setf old" and ov: "\<forall>r\<in>set (bookings s). \<not> overlap_row (setf old) r"
      by (simp_all add: check_booking_overlap_Inr)
    show ?thesis
    proof (cases "check_constraints (update_updated_at_column now new1)")
      case (Inl e)
      then show ?thesis using error old n1 by (simp add: update_booking_def)
    next
      case n2: (Inr new2)
      then have e2: "new2 = update_updated_at_column now (setf old)"
        using e1 by (simp add: check_constraints_Inr)
      have "update_booking now bid wher setf s =
         Inr (1, s\<lparr>bookings := map (\<lambda>r. if booking_id r = bid then new2 else r) (bookings s)\<rparr>)"
        using old n1 n2 by (simp add: update_booking_def)
      then show ?thesis using one[OF old e2 ov] n2 e1 e2 by simp
    qed
  qed
qed

lemma find_SomeD: "find P xs = Some x \<Longrightarrow> x \<in> set xs \<and> P x"
  by (induction xs) (auto split: if_splits)

lemma store_inv_update:
  assumes inv: "store_inv rows" and ov: "\<forall>r\<in>set rows. \<not> overlap_row new r"
    and dt: "check_constraints new = Inr new"
    and old: "old \<in> set rows" and id: "booking_id new = booking_id old"
  shows "store_inv (map (\<lambda>r. if booking_id r = booking_id old then new else r) rows)"
proof -
  let ?f = "\<lambda>r. if booking_id r = booking_id old then new else r"
  have idf: "\<And>r. booking_id (?f r) = booking_id r" using id by simp
  have "map booking_id (map ?f rows) = map booking_id rows"
    unfolding map_map by (rule map_cong) (simp_all add: id)
  moreover have "distinct (map booking_id rows)" using inv by (simp add: store_inv_iff)
  ultimately have d: "distinct (map booking_id (map ?f rows))" by (simp only:)
  have v: "\<forall>r\<in>set (map ?f rows). check_constraints r = Inr r"
    using inv dt by (auto simp: store_inv_iff)
  have n: "\<And>r. r \<in> set rows \<Longrightarrow> rivals new r \<Longrightarrow> \<not> intersecting new r"
    using ov not_overlap_row_rivals by blast
  have p: "\<not> intersecting a' b'"
    if a': "a' \<in> set (map ?f rows)" and b': "b' \<in> set (map ?f rows)" and r: "rivals a' b'"
    for a' b'
  proof -
    from a' obtain a where a: "a \<in> set rows" "a' = ?f a" by auto
    from b' obtain b where b: "b \<in> set rows" "b' = ?f b" by auto
    have ne: "booking_id a \<noteq> booking_id b" using r a b idf by (simp add: rivals_def)
    show ?thesis
    proof (cases "booking_id a = booking_id old")
      case True
      then have "a' = new" "b' = b" using a b ne by auto
      then show ?thesis using n[OF b(1)] r by simp
    next
      case na: False
      show ?thesis
      proof (cases "booking_id b = booking_id old")
        case True
        then have "a' = a" "b' = new" using a b na by auto
        then show ?thesis
          using n[OF a(1)] r rivals_sym[of a new] intersecting_sym[of a new] by simp
      next
        case False
        then have "a' = a" "b' = b" using a b na by auto
        then show ?thesis using inv a b r by (simp add: store_inv_iff)
      qed
    qed
  qed
  have "\<forall>a\<in>set (map ?f rows). \<forall>b\<in>set (map ?f rows). rivals a b \<longrightarrow> \<not> intersecting a b"
    using p by (intro ballI impI)
  with d v show ?thesis by (simp only: store_inv_iff)
qed

lemma update_booking_inv:
  assumes inv: "store_inv (bookings s)"
    and setf: "\<And>r. booking_id (setf r) = booking_id r"
    and res: "update_booking now bid wher setf s = Inr (n, s')"
  shows "store_inv (bookings s')"
proof (cases rule: update_booking_cases[of now bid wher setf s])
  case (error e)
  then show ?thesis using res by simp
next
  case none
  then show ?thesis using res inv by simp
next
  case (one old new)
  have o: "old \<in> set (bookings s)" "booking_id old = bid" using find_SomeD[OF one(1)] by simp_all
  have idn: "booking_id new = booking_id old"
    using one(2) setf by (simp add: update_updated_at_column_def)
  have "overlap_row new = overlap_row (setf old)"
    using one(2) by (simp add: fun_eq_iff overlap_row_def update_updated_at_column_def)
  then have ov: "\<forall>r\<in>set (bookings s). \<not> overlap_row new r" using one(3) by simp
  have dt: "check_constraints new = Inr new" using one(4) .
  have "store_inv (map (\<lambda>r. if booking_id r = booking_id old then new else r) (bookings s))"
    using store_inv_update[OF inv ov dt o(1) idn] .
  then show ?thesis using one(5) res o(2) by simp
qed

lemma fold_assign_id: "booking_id (fold (assign now) ps r) = booking_id r"
proof (induction ps arbitrary: r)
  case Nil
  then show ?case by simp
next
  case (Cons p ps)
  have "booking_id (assign now p r) = booking_id r" by (cases p) simp_all
  with Cons.IH show ?case by simp
qed

lemma fold_assign_property: "property_id (fold (assign now) ps r) = property_id r"
proof (induction ps arbitrary: r)
  case Nil
  then show ?case by simp
next
  case (Cons p ps)
  have "property_id (assign now p r) = property_id r" by (cases p) simp_all
  with Cons.IH show ?case by simp
qed

lemma CreateBooking_inv:
  assumes "store_inv (bookings s)"
  shows "store_inv (bookings (snd (CreateBooking now bookingID newGuestID userID req s)))"
proof (cases rule: CreateBooking_cases[of now bookingID newGuestID userID req s])
  case (failed e)
  then show ?thesis using assms by simp
next
  case (committed b new tx1 tx2 ci co)
  have i: "\<forall>r\<in>set (bookings s). \<not> overlap_row new r" "check_constraints new = Inr new"
    "booking_id new \<notin> booking_id ` set (bookings s)" "bookings tx1 = bookings s @ [new]"
    using committed(5) by (simp_all add: insert_booking_Inr)
  have "store_inv (bookings s @ [new])"
    using store_inv_insert[OF assms i(1) i(2) i(3)] .
  then show ?thesis using committed(1) i(4) insert_guests_frame[OF committed(6)] by simp
qed

lemma UpdateBooking_inv:
  assumes "store_inv (bookings s)"
  shows "store_inv (bookings (snd (UpdateBooking now bookingID req s)))"
proof (cases "setParts req")
  case (Inl e)
  then show ?thesis using assms by (simp add: UpdateBooking_def)
next
  case parts: (Inr parts)
  show ?thesis
  proof (cases "length parts = 0")
    case True
    then show ?thesis using assms parts by (simp add: UpdateBooking_def)
  next
    case False
    show ?thesis
    proof (cases "bind_db (typed_parts (parts @ [Set_updated_at]))
                    (\<lambda>ps. update_booking now bookingID (\<lambda>r. True)
                            (\<lambda>r. fold (assign now) ps r) s)")
      case (Inl e)
      then show ?thesis using assms parts False by (simp add: UpdateBooking_def)
    next
      case (Inr res)
      obtain n s' where res: "res = (n, s')" by (cases res)
      from Inr obtain ps where
        "update_booking now bookingID (\<lambda>r. True) (\<lambda>r. fold (assign now) ps r) s = Inr (n, s')"
        unfolding res by (auto simp: bind_db_Inr)
      then have "store_inv (bookings s')"
        using update_booking_inv[OF assms, of "\<lambda>r. fold (assign now) ps r"] fold_assign_id
        by blast
      then show ?thesis using parts False Inr res by (simp add: UpdateBooking_def)
    qed
  qed
qed

lemma CancelBooking_inv:
  assumes "store_inv (bookings s)"
  shows "store_inv (bookings (snd (CancelBooking today now bookingID s)))"
proof (cases "update_booking now bookingID (\<lambda>r. today \<le> check_in_date r \<and> active r)
             (\<lambda>r. r\<lparr>booking_status := ''cancelled'', updated_at := now\<rparr>) s")
  case (Inl e)
  then show ?thesis using assms by (simp add: CancelBooking_def)
next
  case (Inr res)
  obtain n s' where res: "res = (n, s')" by (cases res)
  have "store_inv (bookings s')"
    using update_booking_inv[OF assms _ Inr[unfolded res]] by simp
  then show ?thesis using Inr res by (simp add: CancelBooking_def)
qed

lemma step_inv: "store_inv (bookings s) \<Longrightarrow> store_inv (bookings (step c s))"
  by (cases c) (simp_all add: CreateBooking_inv UpdateBooking_inv CancelBooking_inv)

lemma run_inv: "store_inv (bookings s) \<Longrightarrow> store_inv (bookings (run cs s))"
  unfolding run_def by (induction cs arbitrary: s) (simp_all add: step_inv)

subsection \<open>An update request without fields\<close>

text \<open>
  C10. \<^verbatim>\<open>UpdateBooking\<close> with a request in which no field is supplied returns the error
  "no fields to update" and the database of the call, with every booking (and its
  \<^verbatim>\<open>updated_at\<close>) as it was, whether or not the booking exists.
\<close>

theorem UpdateBooking_no_fields:
  "UpdateBooking now bookingID
     \<lparr>ur_GuestName = None, ur_GuestIDCard = None, ur_GuestContactNumber = None,
      ur_GuestEmail = None, ur_CheckInDate = None, ur_CheckOutDate = None,
      ur_NumberOfGuests = None, ur_BookingNotes = None, ur_SpecialRequests = None,
      ur_BookingAmount = None, ur_BookingStatus = None, ur_PaymentStatus = None\<rparr> s
   = (Inl NoFieldsToUpdate, s)"
  by (simp add: UpdateBooking_def setParts_def date_part_def opt_part_def)

lemma store_inv_Nil: "store_inv []"
  by (simp add: store_inv_def)

lemma reachable_inv: "bookings s0 = [] \<Longrightarrow> store_inv (bookings (run cs s0))"
  using run_inv[of s0 cs] store_inv_Nil by simp

lemma disjoint_stays:
  "\<not> intersecting a b \<Longrightarrow>
   {check_in_date a ..< check_out_date a} \<inter> {check_in_date b ..< check_out_date b} = {}"
  unfolding intersecting_def by auto

subsection \<open>The non-overlap invariant\<close>

text \<open>
  C1. In every database reached from one without bookings by any sequence of
  \<^verbatim>\<open>CreateBooking\<close>, \<^verbatim>\<open>UpdateBooking\<close> and \<^verbatim>\<open>CancelBooking\<close> calls, two different rows
  of \<^verbatim>\<open>bookings\<close> on the same property that are both pending or confirmed have disjoint
  half-open stays.
\<close>

theorem active_bookings_never_intersect:
  assumes "bookings s0 = []"
    and "i < length (bookings (run cs s0))" and "j < length (bookings (run cs s0))"
    and "i \<noteq> j"
    and "property_id (bookings (run cs s0) ! i) = property_id (bookings (run cs s0) ! j)"
    and "active (bookings (run cs s0) ! i)" and "active (bookings (run cs s0) ! j)"
  shows "{check_in_date (bookings (run cs s0) ! i) ..< check_out_date (bookings (run cs s0) ! i)}
         \<inter> {check_in_date (bookings (run cs s0) ! j) ..< check_out_date (bookings (run cs s0) ! j)}
         = {}"
proof -
  let ?rows = "bookings (run cs s0)"
  have inv: "store_inv ?rows" using assms(1) by (rule reachable_inv)
  then have "distinct (map booking_id ?rows)" by (simp add: store_inv_iff)
  then have "booking_id (?rows ! i) \<noteq> booking_id (?rows ! j)"
    using assms(2,3,4) by (simp add: distinct_conv_nth)
  then have "rivals (?rows ! i) (?rows ! j)" using assms(5,6,7) by (simp add: rivals_def)
  moreover have "?rows ! i \<in> set ?rows" "?rows ! j \<in> set ?rows" using assms(2,3) by simp_all
  ultimately have "\<not> intersecting (?rows ! i) (?rows ! j)"
    using inv by (simp add: store_inv_iff)
  then show ?thesis by (rule disjoint_stays)
qed

theorem active_bookings_never_intersect_witness:
  "bookings demo_store = []
   \<and> (0::nat) < length (bookings (run demo_commands demo_store))
   \<and> (1::nat) < length (bookings (run demo_commands demo_store))
   \<and> property_id (bookings (run demo_commands demo_store) ! 0) = property_id (bookings (run demo_commands demo_store) ! 1)
   \<and> active (bookings (run demo_commands demo_store) ! 0)
   \<and> active (bookings (run demo_commands demo_store) ! 1)
   \<and> {check_in_date (bookings (run demo_commands demo_store) ! 0) ..< check_out_date (bookings (run demo_commands demo_store) ! 0)}
         \<inter> {check_in_date (bookings (run demo_commands demo_store) ! 1) ..< check_out_date (bookings (run demo_commands demo_store) ! 1)}
         = {}"
proof -
  have h1: "bookings demo_store = []" by (simp add: demo_store_def)
  have h2: "(0::nat) < length (bookings (run demo_commands demo_store))" by code_simp
  have h3: "(1::nat) < length (bookings (run demo_commands demo_store))" by code_simp
  have h4: "(0::nat) \<noteq> 1" by simp
  have h5: "property_id (bookings (run demo_commands demo_store) ! 0) = property_id (bookings (run demo_commands demo_store) ! 1)" by code_simp
  have h6: "active (bookings (run demo_commands demo_store) ! 0)" by code_simp
  have h7: "active (bookings (run demo_commands demo_store) ! 1)" by code_simp
  show ?thesis
    using h1 h2 h3 h5 h6 h7 active_bookings_never_intersect[OF h1 h2 h3 h4 h5 h6 h7]
    by (simp only: simp_thms)
qed

subsection \<open>Cancelling\<close>

lemma find_None_iff2: "find P xs = None \<longleftrightarrow> (\<forall>x\<in>set xs. \<not> P x)"
  by (induction xs) auto

lemma cancel_passes_trigger:
  assumes inv: "store_inv rows" and old: "old \<in> set rows" and act: "active old"
    and r: "r \<in> set rows"
  shows "\<not> overlap_row (old\<lparr>booking_status := ''cancelled'', updated_at := now\<rparr>) r"
proof
  let ?new = "old\<lparr>booking_status := ''cancelled'', updated_at := now\<rparr>"
  assume o: "overlap_row ?new r"
  then have riv: "rivals old r" using act by (simp add: overlap_row_def rivals_def)
  have c: "conflict (check_in_date old) (check_out_date old) (check_in_date r) (check_out_date r)"
    using o by (simp add: overlap_row_def)
  have "check_constraints old = Inr old" "check_constraints r = Inr r"
    using inv old r by (simp_all add: store_inv_iff)
  then have "check_in_date old < check_out_date old" "check_in_date r < check_out_date r"
    by (simp_all add: check_constraints_Inr)
  then have "intersecting old r" using c by (rule conflict_intersecting)
  moreover have "\<not> intersecting old r" using inv old r riv by (simp add: store_inv_iff)
  ultimately show False by simp
qed

lemma cancel_passes_checks:
  assumes "check_constraints old = Inr old"
  shows "check_constraints (update_updated_at_column now
           (old\<lparr>booking_status := ''cancelled'', updated_at := now\<rparr>))
         = Inr (old\<lparr>booking_status := ''cancelled'', updated_at := now\<rparr>)"
  using assms by (simp add: check_constraints_Inr update_updated_at_column_def)

lemma CancelBooking_inv_eq:
  assumes inv: "store_inv (bookings s)"
  shows "CancelBooking today now bookingID s =
     (if \<exists>b\<in>set (bookings s). booking_id b = bookingID \<and> today \<le> check_in_date b \<and> active b
      then (Inr (), s\<lparr>bookings :=
              map (\<lambda>r. if booking_id r = bookingID
                        then r\<lparr>booking_status := ''cancelled'', updated_at := now\<rparr> else r)
                  (bookings s)\<rparr>)
      else (Inl NotFoundOrNotCancellable, s))"
proof (cases "find (\<lambda>r. booking_id r = bookingID \<and> today \<le> check_in_date r \<and> active r) (bookings s)")
  case None
  then have "\<not> (\<exists>b\<in>set (bookings s). booking_id b = bookingID \<and> today \<le> check_in_date b \<and> active b)"
    by (simp add: find_None_iff2)
  then show ?thesis using None by (simp add: CancelBooking_def update_booking_def)
next
  case (Some old)
  let ?new = "old\<lparr>booking_status := ''cancelled'', updated_at := now\<rparr>"
  have o: "old \<in> set (bookings s)" "booking_id old = bookingID" "today \<le> check_in_date old"
    "active old"
    using find_SomeD[OF Some] by simp_all
  have ex: "\<exists>b\<in>set (bookings s). booking_id b = bookingID \<and> today \<le> check_in_date b \<and> active b"
    using o by blast
  have "\<forall>r\<in>set (bookings s). \<not> overlap_row ?new r"
    using cancel_passes_trigger[OF inv o(1) o(4)] by blast
  then have t: "check_booking_overlap (bookings s) ?new = Inr ?new"
    by (simp add: check_booking_overlap_Inr)
  have "check_constraints old = Inr old" using inv o(1) by (simp add: store_inv_iff)
  then have c: "check_constraints (update_updated_at_column now ?new) = Inr ?new"
    by (rule cancel_passes_checks)
  have same: "map (\<lambda>r. if booking_id r = bookingID then ?new else r) (bookings s)
        = map (\<lambda>r. if booking_id r = bookingID
                    then r\<lparr>booking_status := ''cancelled'', updated_at := now\<rparr> else r) (bookings s)"
  proof (rule map_cong[OF refl])
    fix r assume r: "r \<in> set (bookings s)"
    have "distinct (map booking_id (bookings s))" using inv by (simp add: store_inv_iff)
    then have "booking_id r = bookingID \<Longrightarrow> r = old"
      using r o(1,2) by (metis distinct_map inj_onD)
    then show "(if booking_id r = bookingID then ?new else r)
        = (if booking_id r = bookingID
           then r\<lparr>booking_status := ''cancelled'', updated_at := now\<rparr> else r)"
      by auto
  qed
  have "update_booking now bookingID (\<lambda>r. today \<le> check_in_date r \<and> active r)
          (\<lambda>r. r\<lparr>booking_status := ''cancelled'', updated_at := now\<rparr>) s
        = Inr (1, s\<lparr>bookings := map (\<lambda>r. if booking_id r = bookingID then ?new else r) (bookings s)\<rparr>)"
    using Some t c by (simp add: update_booking_def)
  then show ?thesis using ex same by (simp add: CancelBooking_def)
qed

lemma cancelled_not_active:
  "\<not> active (r\<lparr>booking_status := ''cancelled'', updated_at := now\<rparr>)"
  by (simp add: active_def)

lemma cancelled_not_cancellable:
  assumes "b \<in> set (map (\<lambda>r. if booking_id r = bookingID
                        then r\<lparr>booking_status := ''cancelled'', updated_at := now\<rparr> else r) rows)"
    and "booking_id b = bookingID"
  shows "\<not> active b"
proof -
  from assms(1) obtain r where
    b: "b = (if booking_id r = bookingID
             then r\<lparr>booking_status := ''cancelled'', updated_at := now\<rparr> else r)"
    unfolding set_map by (rule imageE)
  show ?thesis
  proof (cases "booking_id r = bookingID")
    case True
    then show ?thesis using b cancelled_not_active by simp
  next
    case False
    then show ?thesis using b assms(2) by simp
  qed
qed


text \<open>
  C6. In every database reached from one without bookings, \<^verbatim>\<open>CancelBooking\<close> succeeds
  exactly when a booking with the identifier exists whose check-in date is today or later
  and whose status is pending or confirmed. On success the database changes in the status
  (now cancelled) and the \<^verbatim>\<open>updated_at\<close> of that booking only, and every later
  \<^verbatim>\<open>CancelBooking\<close> of the same booking fails with the error "booking not found or cannot
  be cancelled". When it does not succeed it returns that error and leaves the database as it
  was; in particular a booking whose check-in date is in the past cannot be cancelled.
\<close>

theorem CancelBooking_reachable:
  assumes "bookings s0 = []" and "s = run cs s0"
  shows
    "((\<exists>s'. CancelBooking today now bookingID s = (Inr (), s'))
        \<longleftrightarrow> (\<exists>b\<in>set (bookings s). booking_id b = bookingID \<and> today \<le> check_in_date b \<and> active b))
     \<and> (\<forall>s'. CancelBooking today now bookingID s = (Inr (), s') \<longrightarrow>
            s' = s\<lparr>bookings :=
                     map (\<lambda>r. if booking_id r = bookingID
                               then r\<lparr>booking_status := ''cancelled'', updated_at := now\<rparr> else r)
                         (bookings s)\<rparr>
            \<and> (\<forall>today2 now2. CancelBooking today2 now2 bookingID s'
                                = (Inl NotFoundOrNotCancellable, s')))
     \<and> ((\<forall>s'. CancelBooking today now bookingID s \<noteq> (Inr (), s')) \<longrightarrow>
            CancelBooking today now bookingID s = (Inl NotFoundOrNotCancellable, s))
     \<and> ((\<exists>b\<in>set (bookings s). booking_id b = bookingID \<and> check_in_date b < today) \<longrightarrow>
            CancelBooking today now bookingID s = (Inl NotFoundOrNotCancellable, s))"
proof -
  let ?ok = "\<exists>b\<in>set (bookings s). booking_id b = bookingID \<and> today \<le> check_in_date b \<and> active b"
  let ?s' = "s\<lparr>bookings :=
                     map (\<lambda>r. if booking_id r = bookingID
                               then r\<lparr>booking_status := ''cancelled'', updated_at := now\<rparr> else r)
                         (bookings s)\<rparr>"
  have inv: "store_inv (bookings s)" using assms reachable_inv by simp
  have eq: "CancelBooking today now bookingID s
            = (if ?ok then (Inr (), ?s') else (Inl NotFoundOrNotCancellable, s))"
    using CancelBooking_inv_eq[OF inv] .
  have c1: "(\<exists>s'. CancelBooking today now bookingID s = (Inr (), s')) \<longleftrightarrow> ?ok"
    unfolding eq by simp
  have again: "CancelBooking today2 now2 bookingID ?s' = (Inl NotFoundOrNotCancellable, ?s')"
    if ok: ?ok for today2 now2
  proof -
    have "snd (CancelBooking today now bookingID s) = ?s'" unfolding eq using ok by simp
    then have inv': "store_inv (bookings ?s')"
      using CancelBooking_inv[OF inv, of today now bookingID] by simp
    have "\<not> (\<exists>b\<in>set (bookings ?s'). booking_id b = bookingID \<and> today2 \<le> check_in_date b
              \<and> active b)"
      using cancelled_not_cancellable[of _ bookingID now "bookings s"] by auto
    then show ?thesis using CancelBooking_inv_eq[OF inv', of today2 now2 bookingID] by simp
  qed
  have c2: "\<forall>s'. CancelBooking today now bookingID s = (Inr (), s') \<longrightarrow>
            s' = ?s' \<and> (\<forall>today2 now2. CancelBooking today2 now2 bookingID s'
                                = (Inl NotFoundOrNotCancellable, s'))"
  proof (intro allI impI)
    fix s' assume a: "CancelBooking today now bookingID s = (Inr (), s')"
    then have ok: ?ok using c1 by blast
    then have "s' = ?s'" using a unfolding eq by simp
    then show "s' = ?s' \<and> (\<forall>today2 now2. CancelBooking today2 now2 bookingID s'
                                = (Inl NotFoundOrNotCancellable, s'))"
      using again[OF ok] by simp
  qed
  have c3: "(\<forall>s'. CancelBooking today now bookingID s \<noteq> (Inr (), s')) \<longrightarrow>
            CancelBooking today now bookingID s = (Inl NotFoundOrNotCancellable, s)"
    unfolding eq by simp
  have c4: "(\<exists>b\<in>set (bookings s). booking_id b = bookingID \<and> check_in_date b < today) \<longrightarrow>
            CancelBooking today now bookingID s = (Inl NotFoundOrNotCancellable, s)"
  proof
    assume "\<exists>b\<in>set (bookings s). booking_id b = bookingID \<and> check_in_date b < today"
    then obtain b where b: "b \<in> set (bookings s)" "booking_id b = bookingID"
      "check_in_date b < today" by blast
    have d: "distinct (map booking_id (bookings s))" using inv by (simp add: store_inv_iff)
    have "\<not> ?ok"
    proof
      assume ?ok
      then obtain b' where b': "b' \<in> set (bookings s)" "booking_id b' = bookingID"
        "today \<le> check_in_date b'" by blast
      have "b' = b" using d b(1,2) b'(1,2) by (metis distinct_map inj_onD)
      then show False using b(3) b'(3) by simp
    qed
    then show "CancelBooking today now bookingID s = (Inl NotFoundOrNotCancellable, s)"
      unfolding eq by simp
  qed
  from c1 c2 c3 c4 show ?thesis by (intro conjI)
qed

theorem CancelBooking_reachable_witness:
  "bookings demo_store = []
   \<and> (\<exists>s'. CancelBooking (Date 2024 1 15) 5 10 (run demo_commands demo_store) = (Inr (), s'))
   \<and> CancelBooking (Date 2024 1 16) 5 10 (run demo_commands demo_store)
       = (Inl NotFoundOrNotCancellable, run demo_commands demo_store)"
proof -
  have h: "bookings demo_store = []" by (simp add: demo_store_def)
  note t = CancelBooking_reachable[OF h refl, of _ _ 10 demo_commands]
  have a: "\<exists>b\<in>set (bookings (run demo_commands demo_store)).
             booking_id b = 10 \<and> Date 2024 1 15 \<le> check_in_date b \<and> active b"
    by code_simp
  have b: "\<exists>b\<in>set (bookings (run demo_commands demo_store)).
             booking_id b = 10 \<and> check_in_date b < Date 2024 1 16"
    by code_simp
  have "\<exists>s'. CancelBooking (Date 2024 1 15) 5 10 (run demo_commands demo_store) = (Inr (), s')"
    using t[of "Date 2024 1 15" 5] a by blast
  moreover have "CancelBooking (Date 2024 1 16) 5 10 (run demo_commands demo_store)
       = (Inl NotFoundOrNotCancellable, run demo_commands demo_store)"
    using t[of "Date 2024 1 16" 5] b by blast
  ultimately show ?thesis using h by (intro conjI)
qed

subsection \<open>Rejected creations\<close>

lemma bind_db_Inl: "bind_db m f = Inl e \<longleftrightarrow> m = Inl e \<or> (\<exists>x. m = Inr x \<and> f x = Inl e)"
  unfolding bind_db_def by (cases m) simp_all

lemma check_booking_overlap_Inl:
  "check_booking_overlap rows new = Inl e \<longleftrightarrow> e = OverlapException \<and> (\<exists>r\<in>set rows. overlap_row new r)"
  unfolding check_booking_overlap_def list_ex_iff by auto

lemma insert_booking_overlap:
  "r \<in> set (bookings s) \<Longrightarrow> overlap_row new r \<Longrightarrow> insert_booking new s = Inl OverlapException"
  unfolding insert_booking_def
  using check_booking_overlap_Inl[of "bookings s" new OverlapException]
  by (cases "check_booking_overlap (bookings s) new") (auto simp: check_booking_overlap_Inr)

lemma CreateBooking_parsed:
  assumes "time_Parse (cr_CheckInDate req) = Some ci" "time_Parse (cr_CheckOutDate req) = Some co"
    and "bind_db (booking_values now bookingID userID req ci co) (\<lambda>new. insert_booking new s) = Inl e"
  shows "CreateBooking now bookingID newGuestID userID req s = (Inl (DbError e), s)"
  using assms by (simp add: CreateBooking_def)

lemma parse_18: "time_Parse ''2024-01-18'' = Some (Date 2024 1 18)" by code_simp
lemma parse_22: "time_Parse ''2024-01-22'' = Some (Date 2024 1 22)" by code_simp

text \<open>
  C3. Let the database hold an active booking \<open>A\<close> from 2024-01-15 to 2024-01-20 on a
  property. \<^verbatim>\<open>CreateBooking\<close> for a stay from 2024-01-18 to 2024-01-22 on that property
  fails with a database error and returns the database of the call: \<open>A\<close> and every other
  row are as before, and neither the booking nor any of its additional guests is stored.
  The error is the overlap exception of the trigger whenever the new identifier is not the
  one of \<open>A\<close> and the values of the request fit their columns.
\<close>

theorem overlapping_create_rejected:
  assumes "A \<in> set (bookings s)" and "active A" and "property_id A = cr_PropertyID req"
    and "check_in_date A = Date 2024 1 15" and "check_out_date A = Date 2024 1 20"
    and "cr_CheckInDate req = ''2024-01-18''" and "cr_CheckOutDate req = ''2024-01-22''"
  shows "(\<exists>e. CreateBooking now bookingID newGuestID userID req s = (Inl (DbError e), s))
     \<and> (booking_id A \<noteq> bookingID \<longrightarrow>
          (\<exists>new. booking_values now bookingID userID req (Date 2024 1 18) (Date 2024 1 22) = Inr new)
          \<longrightarrow> CreateBooking now bookingID newGuestID userID req s
               = (Inl (DbError OverlapException), s))"
proof -
  let ?ci = "Date 2024 1 18" and ?co = "Date 2024 1 22"
  let ?vals = "booking_values now bookingID userID req ?ci ?co"
  have p: "time_Parse (cr_CheckInDate req) = Some ?ci" "time_Parse (cr_CheckOutDate req) = Some ?co"
    using assms(6,7) parse_18 parse_22 by simp_all
  have c: "conflict ?ci ?co (Date 2024 1 15) (Date 2024 1 20)" by code_simp
  have ov: "insert_booking new s = Inl OverlapException"
    if "?vals = Inr new" "booking_id A \<noteq> bookingID" for new
  proof -
    have "overlap_row new A"
      using booking_values_Inr[OF that(1)] that(2) assms(2,3,4,5) c
      by (simp add: overlap_row_def)
    then show ?thesis using assms(1) insert_booking_overlap by blast
  qed
  have dup: "\<exists>e. insert_booking new s = Inl e" if "?vals = Inr new" "booking_id A = bookingID" for new
  proof (cases "insert_booking new s")
    case (Inl e)
    then show ?thesis by blast
  next
    case (Inr s')
    then have "booking_id new \<notin> booking_id ` set (bookings s)" by (simp add: insert_booking_Inr)
    then show ?thesis using booking_values_Inr[OF that(1)] that(2) assms(1) by force
  qed
  have first: "\<exists>e. CreateBooking now bookingID newGuestID userID req s = (Inl (DbError e), s)"
  proof (cases ?vals)
    case (Inl e)
    then show ?thesis using CreateBooking_parsed[OF p, of now bookingID userID s e]
      by (simp add: bind_db_def)
  next
    case (Inr new)
    then obtain e where "insert_booking new s = Inl e"
      using ov[OF Inr] dup[OF Inr] by blast
    then show ?thesis using CreateBooking_parsed[OF p, of now bookingID userID s e] Inr
      by (simp add: bind_db_def)
  qed
  have second: "CreateBooking now bookingID newGuestID userID req s
               = (Inl (DbError OverlapException), s)"
    if "booking_id A \<noteq> bookingID" "?vals = Inr new" for new
    using CreateBooking_parsed[OF p, of now bookingID userID s OverlapException] ov[OF that(2,1)] that(2)
    by (simp add: bind_db_def)
  from first second show ?thesis by blast
qed

theorem overlapping_create_rejected_witness:
  "bookings (run demo_commands demo_store) ! 0 \<in> set (bookings (run demo_commands demo_store))
   \<and> active (bookings (run demo_commands demo_store) ! 0)
   \<and> check_in_date (bookings (run demo_commands demo_store) ! 0) = Date 2024 1 15
   \<and> check_out_date (bookings (run demo_commands demo_store) ! 0) = Date 2024 1 20
   \<and> CreateBooking 2 12 (\<lambda>i. 300 + i) 1 (demo_request ''Eve'' ''2024-01-18'' ''2024-01-22'')
        (run demo_commands demo_store)
      = (Inl (DbError OverlapException), run demo_commands demo_store)"
proof -
  let ?s = "run demo_commands demo_store"
  let ?req = "demo_request ''Eve'' ''2024-01-18'' ''2024-01-22''"
  have h1: "bookings ?s ! 0 \<in> set (bookings ?s)" by code_simp
  have h2: "active (bookings ?s ! 0)" by code_simp
  have h3: "property_id (bookings ?s ! 0) = cr_PropertyID ?req" by code_simp
  have h4: "check_in_date (bookings ?s ! 0) = Date 2024 1 15" by code_simp
  have h5: "check_out_date (bookings ?s ! 0) = Date 2024 1 20" by code_simp
  have h6: "cr_CheckInDate ?req = ''2024-01-18''" by (simp add: demo_request_def)
  have h7: "cr_CheckOutDate ?req = ''2024-01-22''" by (simp add: demo_request_def)
  have h8: "booking_id (bookings ?s ! 0) \<noteq> 12" by code_simp
  have h9: "\<exists>new. booking_values 2 12 1 ?req (Date 2024 1 18) (Date 2024 1 22) = Inr new"
    by (simp add: booking_values_def bind_db_def demo_request_def varchar_def varchar_opt_def
        int4_def decimal_10_2_def)
  have "CreateBooking 2 12 (\<lambda>i. 300 + i) 1 ?req ?s = (Inl (DbError OverlapException), ?s)"
    using overlapping_create_rejected[OF h1 h2 h3 h4 h5 h6 h7, of 2 12 "\<lambda>i. 300 + i" 1] h8 h9
    by blast
  then show ?thesis using h1 h2 h4 h5 by (intro conjI)
qed

lemma insert_booking_checks:
  assumes "\<not> list_ex (overlap_row new) (bookings s)" and "check_constraints new = Inl e"
  shows "insert_booking new s = Inl e"
  using assms by (simp add: insert_booking_def check_booking_overlap_def)

lemma insert_booking_Inl_early:
  assumes "check_constraints new = Inl c"
  shows "insert_booking new s = Inl OverlapException \<or> insert_booking new s = Inl c"
  using assms by (simp add: insert_booking_def check_booking_overlap_def)

lemma check_constraints_new:
  assumes "booking_values now bookingID userID req ci co = Inr new"
  shows "check_constraints new =
     (if \<not> ci < co then Inl (CheckViolation ''check_dates'')
      else if \<not> 0 < cr_NumberOfGuests req then Inl (CheckViolation ''check_guests'')
      else Inr new)"
  using booking_values_Inr[OF assms]
  by (simp add: check_constraints_def)

text \<open>
  C4, as the code has it. A request whose check-in or check-out string does not parse fails
  with the date-format error of that field. A request whose dates parse but whose check-out
  is not after its check-in, or whose number of guests is not positive, fails in the
  \<^verbatim>\<open>INSERT\<close> with a database error: the violation of \<^verbatim>\<open>check_dates\<close> or
  \<^verbatim>\<open>check_guests\<close>, unless a value does not fit its column or the overlap trigger, which
  runs before the \<^verbatim>\<open>CHECK\<close> constraints, raises first. In every case the database is the
  one of the call, so no booking is created.
\<close>

theorem invalid_create_rejected:
  "(time_Parse (cr_CheckInDate req) = None \<longrightarrow>
      CreateBooking now bookingID newGuestID userID req s = (Inl InvalidCheckInDate, s))
   \<and> (\<forall>ci. time_Parse (cr_CheckInDate req) = Some ci \<longrightarrow>
          time_Parse (cr_CheckOutDate req) = None \<longrightarrow>
          CreateBooking now bookingID newGuestID userID req s = (Inl InvalidCheckOutDate, s))
   \<and> (\<forall>ci co. time_Parse (cr_CheckInDate req) = Some ci \<longrightarrow>
          time_Parse (cr_CheckOutDate req) = Some co \<longrightarrow>
          (co \<le> ci \<or> cr_NumberOfGuests req \<le> 0) \<longrightarrow>
          (\<exists>e. CreateBooking now bookingID newGuestID userID req s = (Inl (DbError e), s)
               \<and> (e = DataException \<or> e = OverlapException
                    \<or> e = CheckViolation ''check_dates''
                    \<or> e = CheckViolation ''check_guests'')))
   \<and> (\<forall>ci co new. time_Parse (cr_CheckInDate req) = Some ci \<longrightarrow>
          time_Parse (cr_CheckOutDate req) = Some co \<longrightarrow>
          booking_values now bookingID userID req ci co = Inr new \<longrightarrow>
          \<not> list_ex (overlap_row new) (bookings s) \<longrightarrow>
          (co \<le> ci \<longrightarrow> CreateBooking now bookingID newGuestID userID req s
                          = (Inl (DbError (CheckViolation ''check_dates'')), s))
          \<and> (ci < co \<longrightarrow> cr_NumberOfGuests req \<le> 0 \<longrightarrow>
                CreateBooking now bookingID newGuestID userID req s
                  = (Inl (DbError (CheckViolation ''check_guests'')), s)))"
proof -
  let ?C = "CreateBooking now bookingID newGuestID userID req s"
  have c1: "time_Parse (cr_CheckInDate req) = None \<longrightarrow> ?C = (Inl InvalidCheckInDate, s)"
    by (simp add: CreateBooking_def)
  have c2: "\<forall>ci. time_Parse (cr_CheckInDate req) = Some ci \<longrightarrow>
          time_Parse (cr_CheckOutDate req) = None \<longrightarrow> ?C = (Inl InvalidCheckOutDate, s)"
    by (simp add: CreateBooking_def)
  have c3: "\<exists>e. ?C = (Inl (DbError e), s)
               \<and> (e = DataException \<or> e = OverlapException
                    \<or> e = CheckViolation ''check_dates''
                    \<or> e = CheckViolation ''check_guests'')"
    if p: "time_Parse (cr_CheckInDate req) = Some ci" "time_Parse (cr_CheckOutDate req) = Some co"
      and bad: "co \<le> ci \<or> cr_NumberOfGuests req \<le> 0" for ci co
  proof (cases "booking_values now bookingID userID req ci co")
    case (Inl e)
    then have "e = DataException"
      by (auto simp: booking_values_def bind_db_def varchar_def varchar_opt_def int4_def
          decimal_10_2_def split: sum.splits if_splits option.splits)
    moreover have "?C = (Inl (DbError e), s)"
      using CreateBooking_parsed[OF p, of now bookingID userID s e] Inl by (simp add: bind_db_def)
    ultimately show ?thesis by blast
  next
    case (Inr new)
    obtain c where c: "check_constraints new = Inl c"
      "c = CheckViolation ''check_dates'' \<or> c = CheckViolation ''check_guests''"
      using check_constraints_new[OF Inr] bad by (cases "ci < co") auto
    then consider "insert_booking new s = Inl OverlapException" | "insert_booking new s = Inl c"
      using insert_booking_Inl_early by blast
    then show ?thesis
    proof cases
      case 1
      then have "?C = (Inl (DbError OverlapException), s)"
        using CreateBooking_parsed[OF p, of now bookingID userID s OverlapException] Inr
        by (simp add: bind_db_def)
      then show ?thesis by blast
    next
      case 2
      then have "?C = (Inl (DbError c), s)"
        using CreateBooking_parsed[OF p, of now bookingID userID s c] Inr
        by (simp add: bind_db_def)
      then show ?thesis using c(2) by blast
    qed
  qed
  have c4: "(co \<le> ci \<longrightarrow> ?C = (Inl (DbError (CheckViolation ''check_dates'')), s))
          \<and> (ci < co \<longrightarrow> cr_NumberOfGuests req \<le> 0 \<longrightarrow>
                ?C = (Inl (DbError (CheckViolation ''check_guests'')), s))"
    if p: "time_Parse (cr_CheckInDate req) = Some ci" "time_Parse (cr_CheckOutDate req) = Some co"
      and v: "booking_values now bookingID userID req ci co = Inr new"
      and n: "\<not> list_ex (overlap_row new) (bookings s)" for ci co new
  proof (intro conjI impI)
    assume "co \<le> ci"
    then have "check_constraints new = Inl (CheckViolation ''check_dates'')"
      using check_constraints_new[OF v] by simp
    then have "insert_booking new s = Inl (CheckViolation ''check_dates'')"
      using insert_booking_checks[OF n] by simp
    then show "?C = (Inl (DbError (CheckViolation ''check_dates'')), s)"
      using CreateBooking_parsed[OF p, of now bookingID userID s] v by (simp add: bind_db_def)
  next
    assume "ci < co" "cr_NumberOfGuests req \<le> 0"
    then have "check_constraints new = Inl (CheckViolation ''check_guests'')"
      using check_constraints_new[OF v] by simp
    then have "insert_booking new s = Inl (CheckViolation ''check_guests'')"
      using insert_booking_checks[OF n] by simp
    then show "?C = (Inl (DbError (CheckViolation ''check_guests'')), s)"
      using CreateBooking_parsed[OF p, of now bookingID userID s] v by (simp add: bind_db_def)
  qed
  from c1 c2 c3 c4 show ?thesis by blast
qed

theorem invalid_create_rejected_witness:
  "time_Parse ''2024-01-18'' = Some (Date 2024 1 18)
   \<and> time_Parse ''2024-01-16'' = Some (Date 2024 1 16)
   \<and> Date 2024 1 16 \<le> Date 2024 1 18
   \<and> CreateBooking 2 12 (\<lambda>i. 300 + i) 1 (demo_request ''Eve'' ''2024-01-18'' ''2024-01-16'')
        demo_store
      = (Inl (DbError (CheckViolation ''check_dates'')), demo_store)"
proof -
  let ?req = "demo_request ''Eve'' ''2024-01-18'' ''2024-01-16''"
  have h1: "time_Parse (cr_CheckInDate ?req) = Some (Date 2024 1 18)" by code_simp
  have h2: "time_Parse (cr_CheckOutDate ?req) = Some (Date 2024 1 16)" by code_simp
  have h3: "Date 2024 1 16 \<le> Date 2024 1 18" by code_simp
  obtain new where h4: "booking_values 2 12 1 ?req (Date 2024 1 18) (Date 2024 1 16) = Inr new"
    by (simp add: booking_values_def bind_db_def demo_request_def varchar_def varchar_opt_def
        int4_def decimal_10_2_def)
  have h5: "\<not> list_ex (overlap_row new) (bookings demo_store)" by (simp add: demo_store_def)
  have "CreateBooking 2 12 (\<lambda>i. 300 + i) 1 ?req demo_store
      = (Inl (DbError (CheckViolation ''check_dates'')), demo_store)"
    using invalid_create_rejected[of ?req 2 12 "\<lambda>i. 300 + i" 1 demo_store] h1 h2 h3 h4 h5
    by blast
  moreover have "time_Parse ''2024-01-18'' = Some (Date 2024 1 18)"
    "time_Parse ''2024-01-16'' = Some (Date 2024 1 16)" by code_simp+
  ultimately show ?thesis using h3 by (intro conjI)
qed

text \<open>
  A request with the check-out before the check-in that is rejected by the overlap trigger,
  not by a validation of the request.
\<close>

theorem invalid_create_overlap_error:
  "time_Parse ''2024-01-18'' = Some (Date 2024 1 18)
   \<and> time_Parse ''2024-01-16'' = Some (Date 2024 1 16)
   \<and> Date 2024 1 16 \<le> Date 2024 1 18
   \<and> CreateBooking 2 12 (\<lambda>i. 300 + i) 1 (demo_request ''Eve'' ''2024-01-18'' ''2024-01-16'')
        (run demo_commands demo_store)
      = (Inl (DbError OverlapException), run demo_commands demo_store)
   \<and> \<not> validation_error (DbError OverlapException)"
proof -
  have "time_Parse ''2024-01-18'' = Some (Date 2024 1 18)" by code_simp
  moreover have "time_Parse ''2024-01-16'' = Some (Date 2024 1 16)" by code_simp
  moreover have "Date 2024 1 16 \<le> Date 2024 1 18" by code_simp
  moreover have "CreateBooking 2 12 (\<lambda>i. 300 + i) 1
        (demo_request ''Eve'' ''2024-01-18'' ''2024-01-16'') (run demo_commands demo_store)
      = (Inl (DbError OverlapException), run demo_commands demo_store)" by code_simp
  moreover have "\<not> validation_error (DbError OverlapException)"
    by (simp add: validation_error_def)
  ultimately show ?thesis by (intro conjI)
qed

subsection \<open>Listings and search\<close>

lemma row_queryBookings: "map row (queryBookings s rows) = rows"
  by (simp add: queryBookings_def comp_def)

lemma sorted_desc:
  fixes f :: "'a \<Rightarrow> int"
  shows "sorted (map (\<lambda>x. - f x) xs) \<Longrightarrow> sorted (rev (map f xs))"
  by (simp add: sorted_wrt_rev sorted_wrt_map)

text \<open>
  C9. \<^verbatim>\<open>GetUpcomingBookings\<close> returns exactly the bookings of the property that are
  pending or confirmed and whose check-in date lies between today and the upper bound, both
  included, in ascending order of check-in. \<^verbatim>\<open>GetPreviousBookings\<close> returns exactly the
  bookings of the property, whatever their status, whose check-out date is before today and
  not before the lower bound, in descending order of check-out.
\<close>

theorem listings_filter_and_order:
  "mset (map row (GetUpcomingBookings today propertyID upToDate s))
     = filter_mset (\<lambda>r. property_id r = propertyID \<and> active r
                         \<and> today \<le> check_in_date r \<and> check_in_date r \<le> upToDate)
         (mset (bookings s))
   \<and> sorted (map check_in_date (map row (GetUpcomingBookings today propertyID upToDate s)))
   \<and> mset (map row (GetPreviousBookings today propertyID backToDate s))
     = filter_mset (\<lambda>r. property_id r = propertyID
                         \<and> check_out_date r < today \<and> backToDate \<le> check_out_date r)
         (mset (bookings s))
   \<and> sorted (rev (map check_out_date (map row (GetPreviousBookings today propertyID backToDate s))))"
proof (intro conjI)
  show "mset (map row (GetUpcomingBookings today propertyID upToDate s))
     = filter_mset (\<lambda>r. property_id r = propertyID \<and> active r
                         \<and> today \<le> check_in_date r \<and> check_in_date r \<le> upToDate)
         (mset (bookings s))"
    unfolding GetUpcomingBookings_def row_queryBookings
    by (simp add: conj_ac cong: filter_mset_cong)
  show "sorted (map check_in_date (map row (GetUpcomingBookings today propertyID upToDate s)))"
    unfolding GetUpcomingBookings_def row_queryBookings by simp
  show "mset (map row (GetPreviousBookings today propertyID backToDate s))
     = filter_mset (\<lambda>r. property_id r = propertyID
                         \<and> check_out_date r < today \<and> backToDate \<le> check_out_date r)
         (mset (bookings s))"
    unfolding GetPreviousBookings_def row_queryBookings by simp
  show "sorted (rev (map check_out_date (map row (GetPreviousBookings today propertyID backToDate s))))"
    unfolding GetPreviousBookings_def row_queryBookings
    by (rule sorted_desc) simp
qed

text \<open>
  C8 at the search string \<^verbatim>\<open>_\<close>: the string is placed unescaped between two \<^verbatim>\<open>%\<close>,
  so \<^verbatim>\<open>LIKE\<close> reads it as a wildcard and the search returns the bookings of both guests,
  though neither name contains an underscore.
\<close>

theorem search_wildcard_matches_everything:
  "map guest_name (map row (SearchBookingsByGuestName 7 ''_'' (run demo_commands demo_store)))
     = [''Bob'', ''John Doe'']
   \<and> \<not> contains_ignoring_case ''Bob'' ''_''
   \<and> \<not> contains_ignoring_case ''John Doe'' ''_''
   \<and> contains_ignoring_case ''John Doe'' ''OHN''"
  by code_simp

subsection \<open>Touching stays\<close>

lemma varchar_fits: "length v \<le> n \<Longrightarrow> varchar n v = Inr v"
  by (simp add: varchar_def)

lemma varchar_opt_fits: "fits_opt n v \<Longrightarrow> varchar_opt n v = Inr v"
  by (cases v) (simp_all add: fits_opt_def varchar_opt_def varchar_fits)

lemma booking_values_fits:
  assumes "request_fits req"
  shows "booking_values now bookingID userID req ci co
         = Inr (requested_row now bookingID userID req ci co)"
proof -
  have a: "varchar 100 (cr_GuestName req) = Inr (cr_GuestName req)"
    "varchar 50 (cr_GuestIDCard req) = Inr (cr_GuestIDCard req)"
    "varchar 20 (cr_GuestContactNumber req) = Inr (cr_GuestContactNumber req)"
    "varchar_opt 100 (cr_GuestEmail req) = Inr (cr_GuestEmail req)"
    using assms by (simp_all add: request_fits_def varchar_fits varchar_opt_fits)
  have b: "int4 (cr_NumberOfGuests req) = Inr (cr_NumberOfGuests req)"
    using assms by (simp add: request_fits_def int4_def)
  have c: "decimal_10_2 (cr_BookingAmount req) = Inr (cr_BookingAmount req)"
    using assms by (cases "cr_BookingAmount req") (simp_all add: request_fits_def decimal_10_2_def)
  show ?thesis
    by (simp add: booking_values_def requested_row_def bind_db_def a b c)
qed

lemma guest_values_fits:
  assumes "guest_fits g"
  shows "guest_values now guestID bookingID g = Inr (requested_guest now guestID bookingID g)"
proof -
  have a: "varchar 100 (gr_GuestName g) = Inr (gr_GuestName g)"
    "varchar_opt 50 (gr_GuestIDCard g) = Inr (gr_GuestIDCard g)"
    "varchar_opt 20 (gr_GuestContactNumber g) = Inr (gr_GuestContactNumber g)"
    "varchar_opt 50 (gr_RelationshipToMainGuest g) = Inr (gr_RelationshipToMainGuest g)"
    using assms by (simp_all add: guest_fits_def varchar_fits varchar_opt_fits)
  have b: "int4_opt (gr_GuestAge g) = Inr (gr_GuestAge g)"
    using assms by (cases "gr_GuestAge g") (simp_all add: guest_fits_def int4_opt_def int4_def)
  show ?thesis
    by (simp add: guest_values_def requested_guest_def bind_db_def a b)
qed

lemma requested_guests_ids:
  "map g_guest_id (requested_guests now newGuestID bookingID i gs)
   = map newGuestID [i ..< i + length gs]"
proof (induction gs arbitrary: i)
  case Nil
  then show ?case by simp
next
  case (Cons g gs)
  have "[i ..< i + length (g # gs)] = i # [Suc i ..< Suc i + length gs]"
    by (simp add: upt_rec)
  then show ?case using Cons.IH[of "Suc i"] by (simp add: requested_guest_def)
qed

lemma insert_guests_fits:
  assumes "list_all guest_fits gs"
    and "bookingID \<in> booking_id ` set (bookings s)"
    and "distinct (map newGuestID [i ..< i + length gs] @ map g_guest_id (booking_guests s))"
  shows "insert_guests now newGuestID bookingID i gs s
         = Inr (s\<lparr>booking_guests :=
                    booking_guests s @ requested_guests now newGuestID bookingID i gs\<rparr>)"
  using assms
proof (induction gs arbitrary: i s)
  case Nil
  then show ?case by simp
next
  case (Cons g gs)
  let ?g = "requested_guest now (newGuestID i) bookingID g"
  let ?s1 = "s\<lparr>booking_guests := booking_guests s @ [?g]\<rparr>"
  have u: "[i ..< i + length (g # gs)] = i # [Suc i ..< Suc i + length gs]"
    by (simp add: upt_rec)
  have gv: "guest_values now (newGuestID i) bookingID g = Inr ?g"
    using Cons.prems(1) by (simp add: guest_values_fits)
  have fresh: "newGuestID i \<notin> g_guest_id ` set (booking_guests s)"
    using Cons.prems(3) unfolding u by auto
  have ins: "insert_guest ?g s = Inr ?s1"
    using fresh Cons.prems(2) by (simp add: insert_guest_Inr requested_guest_def)
  have d: "distinct (map newGuestID [Suc i ..< Suc i + length gs]
                     @ map g_guest_id (booking_guests ?s1))"
    using Cons.prems(3) unfolding u by (auto simp: requested_guest_def)
  have "insert_guests now newGuestID bookingID (Suc i) gs ?s1
        = Inr (?s1\<lparr>booking_guests :=
                    booking_guests ?s1 @ requested_guests now newGuestID bookingID (Suc i) gs\<rparr>)"
    using Cons.prems(1,2) d by (intro Cons.IH) simp_all
  then show ?case using gv ins by (simp add: bind_db_def)
qed

lemma GetBookingByID_last:
  assumes "bookings s = rows @ [new]" and "booking_id new = bookingID"
    and "bookingID \<notin> booking_id ` set rows"
  shows "GetBookingByID bookingID s
         = Inr \<lparr>row = new, TotalNights = total_nights new,
                AdditionalGuests = getAdditionalGuests s bookingID\<rparr>"
proof -
  have "filter (\<lambda>r. booking_id r = bookingID) rows = []"
    using assms(3) by (auto simp: filter_empty_conv)
  then have "filter (\<lambda>r. booking_id r = bookingID) (bookings s) = [new]"
    using assms(1,2) by simp
  then show ?thesis using assms(2) by (simp add: GetBookingByID_def queryBookings_def)
qed

text \<open>A creation that succeeds, from what the request and the database are.\<close>

lemma CreateBooking_stored:
  assumes p: "time_Parse (cr_CheckInDate req) = Some ci" "time_Parse (cr_CheckOutDate req) = Some co"
    and fits: "request_fits req" and order: "ci < co" and n: "0 < cr_NumberOfGuests req"
    and fk: "cr_PropertyID req \<in> properties s" "userID \<in> users s"
    and fresh: "fresh_ids bookingID newGuestID (length (cr_AdditionalGuests req)) s"
    and free: "stay_free (cr_PropertyID req) ci co s"
    and s': "s' = s\<lparr>bookings := bookings s @ [requested_row now bookingID userID req ci co],
                    booking_guests := booking_guests s
                      @ requested_guests now newGuestID bookingID 0 (cr_AdditionalGuests req)\<rparr>"
  shows "CreateBooking now bookingID newGuestID userID req s
         = (Inr \<lparr>row = requested_row now bookingID userID req ci co, TotalNights = co - ci,
                 AdditionalGuests = getAdditionalGuests s' bookingID\<rparr>, s')"
proof -
  let ?new = "requested_row now bookingID userID req ci co"
  let ?tx1 = "s\<lparr>bookings := bookings s @ [?new]\<rparr>"
  have bv: "booking_values now bookingID userID req ci co = Inr ?new"
    using fits by (rule booking_values_fits)
  have ov: "\<forall>r\<in>set (bookings s). \<not> overlap_row ?new r"
    using free by (auto simp: stay_free_def list_ex_iff overlap_row_def requested_row_def)
  have cc: "check_constraints ?new = Inr ?new"
    using order n by (simp add: check_constraints_Inr requested_row_def)
  have id: "booking_id ?new \<notin> booking_id ` set (bookings s)"
    using fresh by (simp add: fresh_ids_def requested_row_def)
  have ins: "insert_booking ?new s = Inr ?tx1"
    using ov cc id fk by (simp add: insert_booking_Inr requested_row_def)
  have "insert_guests now newGuestID bookingID 0 (cr_AdditionalGuests req) ?tx1
        = Inr (?tx1\<lparr>booking_guests := booking_guests ?tx1
                 @ requested_guests now newGuestID bookingID 0 (cr_AdditionalGuests req)\<rparr>)"
    using fits fresh
    by (intro insert_guests_fits) (simp_all add: request_fits_def fresh_ids_def requested_row_def)
  then have gs: "insert_guests now newGuestID bookingID 0 (cr_AdditionalGuests req) ?tx1 = Inr s'"
    by (simp add: s')
  have "GetBookingByID bookingID s'
        = Inr \<lparr>row = ?new, TotalNights = total_nights ?new,
               AdditionalGuests = getAdditionalGuests s' bookingID\<rparr>"
    using id by (intro GetBookingByID_last) (simp_all add: s' requested_row_def)
  moreover have "total_nights ?new = co - ci" by (simp add: total_nights_def requested_row_def)
  ultimately show ?thesis
    using p bv ins gs by (simp add: CreateBooking_def bind_db_def)
qed

lemma conflict_iff_intersect:
  "a_in < a_out \<Longrightarrow> b_in < b_out \<Longrightarrow>
   conflict a_in a_out b_in b_out = (a_in < b_out \<and> b_in < a_out)"
  unfolding conflict_def by linarith

lemma touching_no_conflict:
  "a_in < d \<Longrightarrow> d < b_out \<Longrightarrow> \<not> conflict a_in d d b_out \<and> \<not> conflict d b_out a_in d"
  unfolding conflict_def by linarith

lemma CreateBooking_created:
  assumes "time_Parse (cr_CheckInDate req) = Some ci" "time_Parse (cr_CheckOutDate req) = Some co"
    and "request_fits req" and "ci < co" and "0 < cr_NumberOfGuests req"
    and "cr_PropertyID req \<in> properties s" "userID \<in> users s"
    and "fresh_ids bookingID newGuestID (length (cr_AdditionalGuests req)) s"
    and "stay_free (cr_PropertyID req) ci co s"
  shows "CreateBooking now bookingID newGuestID userID req s
         = (Inr \<lparr>row = requested_row now bookingID userID req ci co, TotalNights = co - ci,
                 AdditionalGuests =
                   getAdditionalGuests (created now bookingID newGuestID userID req ci co s)
                     bookingID\<rparr>,
            created now bookingID newGuestID userID req ci co s)"
  using assms by (intro CreateBooking_stored) (simp_all add: created_def)

text \<open>Two creations one after the other, the second stay not in conflict with the first.\<close>

lemma create_after_create:
  assumes pX: "time_Parse (cr_CheckInDate reqX) = Some x_in"
      "time_Parse (cr_CheckOutDate reqX) = Some x_out"
    and pY: "time_Parse (cr_CheckInDate reqY) = Some y_in"
      "time_Parse (cr_CheckOutDate reqY) = Some y_out"
    and order: "x_in < x_out" "y_in < y_out"
    and nc: "\<not> conflict y_in y_out x_in x_out"
    and pr: "cr_PropertyID reqX = p" "cr_PropertyID reqY = p" "p \<in> properties s"
    and usr: "userX \<in> users s" "userY \<in> users s"
    and fits: "request_fits reqX" "0 < cr_NumberOfGuests reqX"
      "request_fits reqY" "0 < cr_NumberOfGuests reqY"
    and free: "stay_free p x_in x_out s" "stay_free p y_in y_out s"
    and ids: "idX \<noteq> idY" "idX \<notin> set (map booking_id (bookings s))"
      "idY \<notin> set (map booking_id (bookings s))"
    and gids: "distinct (map gidX [0 ..< length (cr_AdditionalGuests reqX)]
                         @ map gidY [0 ..< length (cr_AdditionalGuests reqY)]
                         @ map g_guest_id (booking_guests s))"
  shows "CreateBooking nowX idX gidX userX reqX s
         = (Inr \<lparr>row = requested_row nowX idX userX reqX x_in x_out, TotalNights = x_out - x_in,
                 AdditionalGuests =
                   getAdditionalGuests (created nowX idX gidX userX reqX x_in x_out s) idX\<rparr>,
            created nowX idX gidX userX reqX x_in x_out s)"
    and "CreateBooking nowY idY gidY userY reqY (created nowX idX gidX userX reqX x_in x_out s)
         = (Inr \<lparr>row = requested_row nowY idY userY reqY y_in y_out, TotalNights = y_out - y_in,
                 AdditionalGuests =
                   getAdditionalGuests
                     (created nowY idY gidY userY reqY y_in y_out
                        (created nowX idX gidX userX reqX x_in x_out s)) idY\<rparr>,
            created nowY idY gidY userY reqY y_in y_out
              (created nowX idX gidX userX reqX x_in x_out s))"
proof -
  let ?s1 = "created nowX idX gidX userX reqX x_in x_out s"
  have fX: "fresh_ids idX gidX (length (cr_AdditionalGuests reqX)) s"
    using ids(2) gids by (auto simp: fresh_ids_def)
  show "CreateBooking nowX idX gidX userX reqX s
         = (Inr \<lparr>row = requested_row nowX idX userX reqX x_in x_out, TotalNights = x_out - x_in,
                 AdditionalGuests = getAdditionalGuests ?s1 idX\<rparr>, ?s1)"
    using pX fits(1) order(1) fits(2) pr(1,3) usr(1) fX free(1)
    by (intro CreateBooking_created) simp_all
  have g1: "map g_guest_id (booking_guests ?s1)
            = map g_guest_id (booking_guests s)
              @ map gidX [0 ..< length (cr_AdditionalGuests reqX)]"
    using requested_guests_ids[of nowX gidX idX 0 "cr_AdditionalGuests reqX"]
    by (simp add: created_def)
  have fY: "fresh_ids idY gidY (length (cr_AdditionalGuests reqY)) ?s1"
    unfolding fresh_ids_def g1 using ids gids
    by (auto simp: created_def requested_row_def)
  have free1: "stay_free p y_in y_out ?s1"
    using free(2) nc
    by (simp add: stay_free_def created_def requested_row_def list_ex_iff)
  show "CreateBooking nowY idY gidY userY reqY ?s1
         = (Inr \<lparr>row = requested_row nowY idY userY reqY y_in y_out, TotalNights = y_out - y_in,
                 AdditionalGuests =
                   getAdditionalGuests (created nowY idY gidY userY reqY y_in y_out ?s1) idY\<rparr>,
            created nowY idY gidY userY reqY y_in y_out ?s1)"
    using pY fits(3) order(2) fits(4) pr(2,3) usr(2) fY free1
    by (intro CreateBooking_created) (simp_all add: created_def)
qed

text \<open>
  C2. For two stays with check-out after check-in, the three-disjunct condition of the
  overlap trigger holds exactly when each stay begins before the other ends. A stay that
  ends on a day \<open>d\<close> and a stay that begins on \<open>d\<close> do not conflict, in either order.
  And both creations succeed: take two requests for the same property, the first ending on
  \<open>d\<close> and the second beginning on \<open>d\<close>, whose values fit their columns, with at least
  one guest each, an existing property and existing users, new identifiers, and stays that
  conflict with no active booking already in the database. Then \<^verbatim>\<open>CreateBooking\<close> of the
  first returns the requested booking and stores it, and \<^verbatim>\<open>CreateBooking\<close> of the second
  in the resulting database returns and stores the second one, so that both rows and their
  guests are in the database; the same holds in the other order.
\<close>

theorem half_open_conflict_and_touching_stays:
  "(a_in < a_out \<longrightarrow> b_in < b_out \<longrightarrow>
      conflict a_in a_out b_in b_out = (a_in < b_out \<and> b_in < a_out))
   \<and> (a_in < d \<longrightarrow> d < b_out \<longrightarrow> \<not> conflict a_in d d b_out \<and> \<not> conflict d b_out a_in d)
   \<and> (time_Parse (cr_CheckInDate reqA) = Some a_in \<longrightarrow>
      time_Parse (cr_CheckOutDate reqA) = Some d \<longrightarrow>
      time_Parse (cr_CheckInDate reqB) = Some d \<longrightarrow>
      time_Parse (cr_CheckOutDate reqB) = Some b_out \<longrightarrow>
      a_in < d \<longrightarrow> d < b_out \<longrightarrow>
      cr_PropertyID reqA = p \<longrightarrow> cr_PropertyID reqB = p \<longrightarrow> p \<in> properties s \<longrightarrow>
      userA \<in> users s \<longrightarrow> userB \<in> users s \<longrightarrow>
      request_fits reqA \<longrightarrow> 0 < cr_NumberOfGuests reqA \<longrightarrow>
      request_fits reqB \<longrightarrow> 0 < cr_NumberOfGuests reqB \<longrightarrow>
      stay_free p a_in d s \<longrightarrow> stay_free p d b_out s \<longrightarrow>
      idA \<noteq> idB \<longrightarrow> idA \<notin> set (map booking_id (bookings s)) \<longrightarrow>
      idB \<notin> set (map booking_id (bookings s)) \<longrightarrow>
      distinct (map gidA [0 ..< length (cr_AdditionalGuests reqA)]
                @ map gidB [0 ..< length (cr_AdditionalGuests reqB)]
                @ map g_guest_id (booking_guests s)) \<longrightarrow>
      CreateBooking nowA idA gidA userA reqA s
        = (Inr \<lparr>row = requested_row nowA idA userA reqA a_in d, TotalNights = d - a_in,
                AdditionalGuests =
                  getAdditionalGuests (created nowA idA gidA userA reqA a_in d s) idA\<rparr>,
           created nowA idA gidA userA reqA a_in d s)
      \<and> CreateBooking nowB idB gidB userB reqB (created nowA idA gidA userA reqA a_in d s)
        = (Inr \<lparr>row = requested_row nowB idB userB reqB d b_out, TotalNights = b_out - d,
                AdditionalGuests =
                  getAdditionalGuests
                    (created nowB idB gidB userB reqB d b_out
                       (created nowA idA gidA userA reqA a_in d s)) idB\<rparr>,
           created nowB idB gidB userB reqB d b_out (created nowA idA gidA userA reqA a_in d s))
      \<and> CreateBooking nowB idB gidB userB reqB s
        = (Inr \<lparr>row = requested_row nowB idB userB reqB d b_out, TotalNights = b_out - d,
                AdditionalGuests =
                  getAdditionalGuests (created nowB idB gidB userB reqB d b_out s) idB\<rparr>,
           created nowB idB gidB userB reqB d b_out s)
      \<and> CreateBooking nowA idA gidA userA reqA (created nowB idB gidB userB reqB d b_out s)
        = (Inr \<lparr>row = requested_row nowA idA userA reqA a_in d, TotalNights = d - a_in,
                AdditionalGuests =
                  getAdditionalGuests
                    (created nowA idA gidA userA reqA a_in d
                       (created nowB idB gidB userB reqB d b_out s)) idA\<rparr>,
           created nowA idA gidA userA reqA a_in d (created nowB idB gidB userB reqB d b_out s)))"
proof (intro conjI impI)
  show "conflict a_in a_out b_in b_out = (a_in < b_out \<and> b_in < a_out)"
    if "a_in < a_out" "b_in < b_out"
    using that by (rule conflict_iff_intersect)
  show "\<not> conflict a_in d d b_out" "\<not> conflict d b_out a_in d" if "a_in < d" "d < b_out"
    using touching_no_conflict[OF that] by simp_all
next
  assume pA: "time_Parse (cr_CheckInDate reqA) = Some a_in"
      "time_Parse (cr_CheckOutDate reqA) = Some d"
    and pB: "time_Parse (cr_CheckInDate reqB) = Some d"
      "time_Parse (cr_CheckOutDate reqB) = Some b_out"
    and order: "a_in < d" "d < b_out"
    and pr: "cr_PropertyID reqA = p" "cr_PropertyID reqB = p" "p \<in> properties s"
    and usr: "userA \<in> users s" "userB \<in> users s"
    and fits: "request_fits reqA" "0 < cr_NumberOfGuests reqA"
      "request_fits reqB" "0 < cr_NumberOfGuests reqB"
    and free: "stay_free p a_in d s" "stay_free p d b_out s"
    and ids: "idA \<noteq> idB" "idA \<notin> set (map booking_id (bookings s))"
      "idB \<notin> set (map booking_id (bookings s))"
    and gids: "distinct (map gidA [0 ..< length (cr_AdditionalGuests reqA)]
                @ map gidB [0 ..< length (cr_AdditionalGuests reqB)]
                @ map g_guest_id (booking_guests s))"
  have nc: "\<not> conflict d b_out a_in d" "\<not> conflict a_in d d b_out"
    using touching_no_conflict[OF order] by simp_all
  have ids': "idB \<noteq> idA" using ids(1) by simp
  have gids': "distinct (map gidB [0 ..< length (cr_AdditionalGuests reqB)]
                @ map gidA [0 ..< length (cr_AdditionalGuests reqA)]
                @ map g_guest_id (booking_guests s))"
    using gids by auto
  note AB = create_after_create[OF pA pB order nc(1) pr usr fits free ids gids]
  note BA = create_after_create[OF pB pA order(2,1) nc(2) pr(2,1,3) usr(2,1) fits(3,4,1,2)
      free(2,1) ids' ids(3,2) gids']
  show "CreateBooking nowA idA gidA userA reqA s
        = (Inr \<lparr>row = requested_row nowA idA userA reqA a_in d, TotalNights = d - a_in,
                AdditionalGuests =
                  getAdditionalGuests (created nowA idA gidA userA reqA a_in d s) idA\<rparr>,
           created nowA idA gidA userA reqA a_in d s)"
    by (rule AB(1))
  show "CreateBooking nowB idB gidB userB reqB (created nowA idA gidA userA reqA a_in d s)
        = (Inr \<lparr>row = requested_row nowB idB userB reqB d b_out, TotalNights = b_out - d,
                AdditionalGuests =
                  getAdditionalGuests
                    (created nowB idB gidB userB reqB d b_out
                       (created nowA idA gidA userA reqA a_in d s)) idB\<rparr>,
           created nowB idB gidB userB reqB d b_out (created nowA idA gidA userA reqA a_in d s))"
    by (rule AB(2))
  show "CreateBooking nowB idB gidB userB reqB s
        = (Inr \<lparr>row = requested_row nowB idB userB reqB d b_out, TotalNights = b_out - d,
                AdditionalGuests =
                  getAdditionalGuests (created nowB idB gidB userB reqB d b_out s) idB\<rparr>,
           created nowB idB gidB userB reqB d b_out s)"
    by (rule BA(1))
  show "CreateBooking nowA idA gidA userA reqA (created nowB idB gidB userB reqB d b_out s)
        = (Inr \<lparr>row = requested_row nowA idA userA reqA a_in d, TotalNights = d - a_in,
                AdditionalGuests =
                  getAdditionalGuests
                    (created nowA idA gidA userA reqA a_in d
                       (created nowB idB gidB userB reqB d b_out s)) idA\<rparr>,
           created nowA idA gidA userA reqA a_in d (created nowB idB gidB userB reqB d b_out s))"
    by (rule BA(2))
qed

theorem half_open_conflict_and_touching_stays_witness:
  "time_Parse ''2024-01-20'' = Some (Date 2024 1 20)
   \<and> \<not> conflict (Date 2024 1 15) (Date 2024 1 20) (Date 2024 1 20) (Date 2024 1 22)
   \<and> \<not> isl (fst (CreateBooking 0 10 (\<lambda>i. 100 + i) 1
                   (demo_request ''John Doe'' ''2024-01-15'' ''2024-01-20'') demo_store))
   \<and> \<not> isl (fst (CreateBooking 1 11 (\<lambda>i. 200 + i) 1
                   (demo_request ''Bob'' ''2024-01-20'' ''2024-01-22'')
                   (snd (CreateBooking 0 10 (\<lambda>i. 100 + i) 1
                          (demo_request ''John Doe'' ''2024-01-15'' ''2024-01-20'') demo_store))))
   \<and> map (\<lambda>r. (booking_id r, guest_name r, check_in_date r, check_out_date r, booking_status r))
       (bookings (snd (CreateBooking 1 11 (\<lambda>i. 200 + i) 1
                   (demo_request ''Bob'' ''2024-01-20'' ''2024-01-22'')
                   (snd (CreateBooking 0 10 (\<lambda>i. 100 + i) 1
                          (demo_request ''John Doe'' ''2024-01-15'' ''2024-01-20'') demo_store)))))
     = [(10, ''John Doe'', Date 2024 1 15, Date 2024 1 20, ''confirmed''),
        (11, ''Bob'', Date 2024 1 20, Date 2024 1 22, ''confirmed'')]
   \<and> map (\<lambda>r. (booking_id r, guest_name r))
       (bookings (snd (CreateBooking 0 10 (\<lambda>i. 100 + i) 1
                   (demo_request ''John Doe'' ''2024-01-15'' ''2024-01-20'')
                   (snd (CreateBooking 1 11 (\<lambda>i. 200 + i) 1
                          (demo_request ''Bob'' ''2024-01-20'' ''2024-01-22'') demo_store)))))
     = [(11, ''Bob''), (10, ''John Doe'')]"
proof -
  let ?A = "demo_request ''John Doe'' ''2024-01-15'' ''2024-01-20''"
  let ?B = "demo_request ''Bob'' ''2024-01-20'' ''2024-01-22''"
  have h0: "time_Parse ''2024-01-20'' = Some (Date 2024 1 20)" by code_simp
  have p: "time_Parse (cr_CheckInDate ?A) = Some (Date 2024 1 15)"
    "time_Parse (cr_CheckOutDate ?A) = Some (Date 2024 1 20)"
    "time_Parse (cr_CheckInDate ?B) = Some (Date 2024 1 20)"
    "time_Parse (cr_CheckOutDate ?B) = Some (Date 2024 1 22)" by code_simp+
  have o: "Date 2024 1 15 < Date 2024 1 20" "Date 2024 1 20 < Date 2024 1 22" by code_simp+
  have pr: "cr_PropertyID ?A = 7" "cr_PropertyID ?B = 7" "7 \<in> properties demo_store"
    "1 \<in> users demo_store" by (simp_all add: demo_request_def demo_store_def)
  have f: "request_fits ?A" "0 < cr_NumberOfGuests ?A" "request_fits ?B" "0 < cr_NumberOfGuests ?B"
    by code_simp+
  have fr: "stay_free 7 (Date 2024 1 15) (Date 2024 1 20) demo_store"
    "stay_free 7 (Date 2024 1 20) (Date 2024 1 22) demo_store"
    by (simp_all add: stay_free_def demo_store_def)
  have ids: "(10::nat) \<noteq> 11" "10 \<notin> set (map booking_id (bookings demo_store))"
    "11 \<notin> set (map booking_id (bookings demo_store))" by (simp_all add: demo_store_def)
  have g: "distinct (map (\<lambda>i. 100 + i) [0 ..< length (cr_AdditionalGuests ?A)]
                @ map (\<lambda>i. 200 + i) [0 ..< length (cr_AdditionalGuests ?B)]
                @ map g_guest_id (booking_guests demo_store))"
    by (simp add: demo_request_def demo_store_def)
  note t = half_open_conflict_and_touching_stays[of "Date 2024 1 15" "Date 2024 1 20"
      "Date 2024 1 20" "Date 2024 1 22" "Date 2024 1 20" ?A ?B 7 demo_store 1 1 10 11
      "\<lambda>i. 100 + i" "\<lambda>i. 200 + i" 0 1]
  have nc: "\<not> conflict (Date 2024 1 15) (Date 2024 1 20) (Date 2024 1 20) (Date 2024 1 22)"
    using t o by blast
  have r: "CreateBooking 0 10 (\<lambda>i. 100 + i) 1 ?A demo_store
        = (Inr \<lparr>row = requested_row 0 10 1 ?A (Date 2024 1 15) (Date 2024 1 20),
                TotalNights = Date 2024 1 20 - Date 2024 1 15,
                AdditionalGuests =
                  getAdditionalGuests (created 0 10 (\<lambda>i. 100 + i) 1 ?A (Date 2024 1 15) (Date 2024 1 20) demo_store) 10\<rparr>,
           created 0 10 (\<lambda>i. 100 + i) 1 ?A (Date 2024 1 15) (Date 2024 1 20) demo_store)"
    "CreateBooking 1 11 (\<lambda>i. 200 + i) 1 ?B
        (created 0 10 (\<lambda>i. 100 + i) 1 ?A (Date 2024 1 15) (Date 2024 1 20) demo_store)
        = (Inr \<lparr>row = requested_row 1 11 1 ?B (Date 2024 1 20) (Date 2024 1 22),
                TotalNights = Date 2024 1 22 - Date 2024 1 20,
                AdditionalGuests =
                  getAdditionalGuests
                    (created 1 11 (\<lambda>i. 200 + i) 1 ?B (Date 2024 1 20) (Date 2024 1 22)
                       (created 0 10 (\<lambda>i. 100 + i) 1 ?A (Date 2024 1 15) (Date 2024 1 20) demo_store)) 11\<rparr>,
           created 1 11 (\<lambda>i. 200 + i) 1 ?B (Date 2024 1 20) (Date 2024 1 22)
             (created 0 10 (\<lambda>i. 100 + i) 1 ?A (Date 2024 1 15) (Date 2024 1 20) demo_store))"
    "CreateBooking 1 11 (\<lambda>i. 200 + i) 1 ?B demo_store
        = (Inr \<lparr>row = requested_row 1 11 1 ?B (Date 2024 1 20) (Date 2024 1 22),
                TotalNights = Date 2024 1 22 - Date 2024 1 20,
                AdditionalGuests =
                  getAdditionalGuests (created 1 11 (\<lambda>i. 200 + i) 1 ?B (Date 2024 1 20) (Date 2024 1 22) demo_store) 11\<rparr>,
           created 1 11 (\<lambda>i. 200 + i) 1 ?B (Date 2024 1 20) (Date 2024 1 22) demo_store)"
    "CreateBooking 0 10 (\<lambda>i. 100 + i) 1 ?A
        (created 1 11 (\<lambda>i. 200 + i) 1 ?B (Date 2024 1 20) (Date 2024 1 22) demo_store)
        = (Inr \<lparr>row = requested_row 0 10 1 ?A (Date 2024 1 15) (Date 2024 1 20),
                TotalNights = Date 2024 1 20 - Date 2024 1 15,
                AdditionalGuests =
                  getAdditionalGuests
                    (created 0 10 (\<lambda>i. 100 + i) 1 ?A (Date 2024 1 15) (Date 2024 1 20)
                       (created 1 11 (\<lambda>i. 200 + i) 1 ?B (Date 2024 1 20) (Date 2024 1 22) demo_store)) 10\<rparr>,
           created 0 10 (\<lambda>i. 100 + i) 1 ?A (Date 2024 1 15) (Date 2024 1 20)
             (created 1 11 (\<lambda>i. 200 + i) 1 ?B (Date 2024 1 20) (Date 2024 1 22) demo_store))"
    using t p o pr f fr ids g by blast+
  have n: "guest_name (requested_row 0 10 1 ?A (Date 2024 1 15) (Date 2024 1 20)) = ''John Doe''"
    "guest_name (requested_row 1 11 1 ?B (Date 2024 1 20) (Date 2024 1 22)) = ''Bob''"
    by (simp_all add: requested_row_def demo_request_def)
  show ?thesis
    unfolding r fst_conv snd_conv
    using h0 nc n by (simp add: created_def requested_row_def demo_store_def)
qed

subsection \<open>Partial updates\<close>

lemma varchar_take: "varchar n x = Inr y \<Longrightarrow> y = take n x"
  unfolding varchar_def by (auto split: if_splits)

lemma typed_parts_append:
  "typed_parts (xs @ ys) = Inr ps \<longleftrightarrow>
     (\<exists>a b. typed_parts xs = Inr a \<and> typed_parts ys = Inr b \<and> ps = a @ b)"
proof (induction xs arbitrary: ps)
  case Nil
  then show ?case by auto
next
  case (Cons x xs)
  show ?case
  proof (cases "typed_part x")
    case (Inl e)
    then show ?thesis by simp
  next
    case q: (Inr q)
    show ?thesis
    proof (cases "typed_parts (xs @ ys)")
      case (Inl e)
      then show ?thesis using q Cons.IH by (auto split: sum.splits)
    next
      case (Inr qs)
      then show ?thesis using q Cons.IH[of qs] by (auto split: sum.splits)
    qed
  qed
qed

lemma typed_parts_appendD:
  assumes "typed_parts (xs @ ys) = Inr ps"
  obtains a b where "typed_parts xs = Inr a" "typed_parts ys = Inr b" "ps = a @ b"
  using assms typed_parts_append by blast

lemma typed_parts_single:
  "typed_parts [p] = Inr a \<longleftrightarrow> (\<exists>q. typed_part p = Inr q \<and> a = [q])"
  by (cases "typed_part p") auto

lemma typed_opt_part_None: "typed_parts (opt_part C None) = Inr a \<longleftrightarrow> a = []"
  by (auto simp: opt_part_def)

lemma typed_opt_part_Some:
  "typed_parts (opt_part C (Some x)) = Inr a \<longleftrightarrow> (\<exists>q. typed_part (C x) = Inr q \<and> a = [q])"
  by (simp only: opt_part_def option.case typed_parts_single)

lemma seg_guest_name:
  assumes "typed_parts (opt_part Set_guest_name v) = Inr a"
  shows "fold (assign now) a r = r\<lparr>guest_name := supplied (map_option (take 100) v) (guest_name r)\<rparr>"
proof (cases v)
  case None
  then show ?thesis using assms by (simp add: typed_opt_part_None supplied_def)
next
  case (Some x)
  then obtain y where "varchar 100 x = Inr y" "a = [Set_guest_name y]"
    using assms by (auto simp: typed_opt_part_Some bind_db_Inr)
  then show ?thesis using Some varchar_take by (simp add: supplied_def)
qed

lemma seg_guest_id_card:
  assumes "typed_parts (opt_part Set_guest_id_card v) = Inr a"
  shows "fold (assign now) a r
         = r\<lparr>guest_id_card := supplied (map_option (take 50) v) (guest_id_card r)\<rparr>"
proof (cases v)
  case None
  then show ?thesis using assms by (simp add: typed_opt_part_None supplied_def)
next
  case (Some x)
  then obtain y where "varchar 50 x = Inr y" "a = [Set_guest_id_card y]"
    using assms by (auto simp: typed_opt_part_Some bind_db_Inr)
  then show ?thesis using Some varchar_take by (simp add: supplied_def)
qed

lemma seg_guest_contact_number:
  assumes "typed_parts (opt_part Set_guest_contact_number v) = Inr a"
  shows "fold (assign now) a r
         = r\<lparr>guest_contact_number := supplied (map_option (take 20) v) (guest_contact_number r)\<rparr>"
proof (cases v)
  case None
  then show ?thesis using assms by (simp add: typed_opt_part_None supplied_def)
next
  case (Some x)
  then obtain y where "varchar 20 x = Inr y" "a = [Set_guest_contact_number y]"
    using assms by (auto simp: typed_opt_part_Some bind_db_Inr)
  then show ?thesis using Some varchar_take by (simp add: supplied_def)
qed

lemma seg_guest_email:
  assumes "typed_parts (opt_part Set_guest_email v) = Inr a"
  shows "fold (assign now) a r
         = r\<lparr>guest_email := supplied (map_option (\<lambda>v. Some (take 100 v)) v) (guest_email r)\<rparr>"
proof (cases v)
  case None
  then show ?thesis using assms by (simp add: typed_opt_part_None supplied_def)
next
  case (Some x)
  then obtain y where "varchar 100 x = Inr y" "a = [Set_guest_email y]"
    using assms by (auto simp: typed_opt_part_Some bind_db_Inr)
  then show ?thesis using Some varchar_take by (simp add: supplied_def)
qed

lemma seg_check_in_date:
  assumes "date_part Set_check_in_date e v = Inr seg" and "typed_parts seg = Inr a"
  shows "fold (assign now) a r = r\<lparr>check_in_date := supplied_date v (check_in_date r)\<rparr>"
proof (cases v)
  case None
  then show ?thesis using assms by (auto simp: date_part_def supplied_date_def)
next
  case (Some x)
  then obtain d where "time_Parse x = Some d" "seg = [Set_check_in_date d]"
    using assms(1) by (auto simp: date_part_def split: option.splits)
  then show ?thesis using Some assms(2) by (auto simp: supplied_date_def)
qed

lemma seg_check_out_date:
  assumes "date_part Set_check_out_date e v = Inr seg" and "typed_parts seg = Inr a"
  shows "fold (assign now) a r = r\<lparr>check_out_date := supplied_date v (check_out_date r)\<rparr>"
proof (cases v)
  case None
  then show ?thesis using assms by (auto simp: date_part_def supplied_date_def)
next
  case (Some x)
  then obtain d where "time_Parse x = Some d" "seg = [Set_check_out_date d]"
    using assms(1) by (auto simp: date_part_def split: option.splits)
  then show ?thesis using Some assms(2) by (auto simp: supplied_date_def)
qed

lemma seg_number_of_guests:
  assumes "typed_parts (opt_part Set_number_of_guests v) = Inr a"
  shows "fold (assign now) a r
         = r\<lparr>number_of_guests := supplied v (number_of_guests r)\<rparr>"
proof (cases v)
  case None
  then show ?thesis using assms by (simp add: typed_opt_part_None supplied_def)
next
  case (Some x)
  then have "a = [Set_number_of_guests x]"
    using assms by (auto simp: typed_opt_part_Some bind_db_Inr int4_def split: if_splits)
  then show ?thesis using Some by (simp add: supplied_def)
qed

lemma seg_booking_notes:
  assumes "typed_parts (opt_part Set_booking_notes v) = Inr a"
  shows "fold (assign now) a r
         = r\<lparr>booking_notes := supplied (map_option Some v) (booking_notes r)\<rparr>"
proof (cases v)
  case None
  then show ?thesis using assms by (simp add: typed_opt_part_None supplied_def)
next
  case (Some x)
  then have "a = [Set_booking_notes x]"
    using assms by (auto simp: typed_opt_part_Some)
  then show ?thesis using Some by (simp add: supplied_def)
qed

lemma seg_special_requests:
  assumes "typed_parts (opt_part Set_special_requests v) = Inr a"
  shows "fold (assign now) a r
         = r\<lparr>special_requests := supplied (map_option Some v) (special_requests r)\<rparr>"
proof (cases v)
  case None
  then show ?thesis using assms by (simp add: typed_opt_part_None supplied_def)
next
  case (Some x)
  then have "a = [Set_special_requests x]"
    using assms by (auto simp: typed_opt_part_Some)
  then show ?thesis using Some by (simp add: supplied_def)
qed

lemma seg_booking_amount:
  assumes "typed_parts (opt_part Set_booking_amount v) = Inr a"
  shows "fold (assign now) a r
         = r\<lparr>booking_amount := supplied (map_option Some v) (booking_amount r)\<rparr>"
proof (cases v)
  case None
  then show ?thesis using assms by (simp add: typed_opt_part_None supplied_def)
next
  case (Some x)
  then have "a = [Set_booking_amount x]"
    using assms by (auto simp: typed_opt_part_Some bind_db_Inr)
  then show ?thesis using Some by (simp add: supplied_def)
qed

lemma seg_booking_status:
  assumes "typed_parts (opt_part Set_booking_status v) = Inr a"
  shows "fold (assign now) a r
         = r\<lparr>booking_status := supplied (map_option (take 20) v) (booking_status r)\<rparr>"
proof (cases v)
  case None
  then show ?thesis using assms by (simp add: typed_opt_part_None supplied_def)
next
  case (Some x)
  then obtain y where "varchar 20 x = Inr y" "a = [Set_booking_status y]"
    using assms by (auto simp: typed_opt_part_Some bind_db_Inr)
  then show ?thesis using Some varchar_take by (simp add: supplied_def)
qed

lemma seg_payment_status:
  assumes "typed_parts (opt_part Set_payment_status v) = Inr a"
  shows "fold (assign now) a r
         = r\<lparr>payment_status := supplied (map_option (take 20) v) (payment_status r)\<rparr>"
proof (cases v)
  case None
  then show ?thesis using assms by (simp add: typed_opt_part_None supplied_def)
next
  case (Some x)
  then obtain y where "varchar 20 x = Inr y" "a = [Set_payment_status y]"
    using assms by (auto simp: typed_opt_part_Some bind_db_Inr)
  then show ?thesis using Some varchar_take by (simp add: supplied_def)
qed

lemma seg_updated_at:
  assumes "typed_parts [Set_updated_at] = Inr a"
  shows "fold (assign now) a r = r\<lparr>updated_at := now\<rparr>"
  using assms by auto


lemma setParts_Inr:
  assumes "setParts req = Inr parts"
  obtains checkIn checkOut where
    "date_part Set_check_in_date InvalidCheckInDate (ur_CheckInDate req) = Inr checkIn"
    "date_part Set_check_out_date InvalidCheckOutDate (ur_CheckOutDate req) = Inr checkOut"
    "parts = opt_part Set_guest_name (ur_GuestName req)
               @ opt_part Set_guest_id_card (ur_GuestIDCard req)
               @ opt_part Set_guest_contact_number (ur_GuestContactNumber req)
               @ opt_part Set_guest_email (ur_GuestEmail req)
               @ checkIn @ checkOut
               @ opt_part Set_number_of_guests (ur_NumberOfGuests req)
               @ opt_part Set_booking_notes (ur_BookingNotes req)
               @ opt_part Set_special_requests (ur_SpecialRequests req)
               @ opt_part Set_booking_amount (ur_BookingAmount req)
               @ opt_part Set_booking_status (ur_BookingStatus req)
               @ opt_part Set_payment_status (ur_PaymentStatus req)"
proof (cases "date_part Set_check_in_date InvalidCheckInDate (ur_CheckInDate req)")
  case (Inl e)
  then show ?thesis using assms by (simp add: setParts_def)
next
  case ci: (Inr checkIn)
  show ?thesis
  proof (cases "date_part Set_check_out_date InvalidCheckOutDate (ur_CheckOutDate req)")
    case (Inl e)
    then show ?thesis using assms ci by (simp add: setParts_def)
  next
    case co: (Inr checkOut)
    then show ?thesis using assms ci that[OF ci co] by (simp add: setParts_def)
  qed
qed

lemma fold_assign_merge:
  assumes "setParts req = Inr parts" and "typed_parts (parts @ [Set_updated_at]) = Inr ps"
  shows "fold (assign now) ps old = merge_request now req old"
proof -
  from assms(1) obtain checkIn checkOut where
    ci: "date_part Set_check_in_date InvalidCheckInDate (ur_CheckInDate req) = Inr checkIn"
    and co: "date_part Set_check_out_date InvalidCheckOutDate (ur_CheckOutDate req) = Inr checkOut"
    and parts: "parts = opt_part Set_guest_name (ur_GuestName req)
               @ opt_part Set_guest_id_card (ur_GuestIDCard req)
               @ opt_part Set_guest_contact_number (ur_GuestContactNumber req)
               @ opt_part Set_guest_email (ur_GuestEmail req)
               @ checkIn @ checkOut
               @ opt_part Set_number_of_guests (ur_NumberOfGuests req)
               @ opt_part Set_booking_notes (ur_BookingNotes req)
               @ opt_part Set_special_requests (ur_SpecialRequests req)
               @ opt_part Set_booking_amount (ur_BookingAmount req)
               @ opt_part Set_booking_status (ur_BookingStatus req)
               @ opt_part Set_payment_status (ur_PaymentStatus req)"
    by (rule setParts_Inr)
  from assms(2) obtain a1 b1 where
    a1: "typed_parts (opt_part Set_guest_name (ur_GuestName req)) = Inr a1" and
    b1: "typed_parts (opt_part Set_guest_id_card (ur_GuestIDCard req)
               @ opt_part Set_guest_contact_number (ur_GuestContactNumber req)
               @ opt_part Set_guest_email (ur_GuestEmail req)
               @ checkIn @ checkOut
               @ opt_part Set_number_of_guests (ur_NumberOfGuests req)
               @ opt_part Set_booking_notes (ur_BookingNotes req)
               @ opt_part Set_special_requests (ur_SpecialRequests req)
               @ opt_part Set_booking_amount (ur_BookingAmount req)
               @ opt_part Set_booking_status (ur_BookingStatus req)
               @ opt_part Set_payment_status (ur_PaymentStatus req) @ [Set_updated_at]) = Inr b1"
    and p1: "ps = a1 @ b1"
    unfolding parts append_assoc by (rule typed_parts_appendD)
  from b1 obtain a2 b2 where
    a2: "typed_parts (opt_part Set_guest_id_card (ur_GuestIDCard req)) = Inr a2" and
    b2: "typed_parts (opt_part Set_guest_contact_number (ur_GuestContactNumber req)
               @ opt_part Set_guest_email (ur_GuestEmail req)
               @ checkIn @ checkOut
               @ opt_part Set_number_of_guests (ur_NumberOfGuests req)
               @ opt_part Set_booking_notes (ur_BookingNotes req)
               @ opt_part Set_special_requests (ur_SpecialRequests req)
               @ opt_part Set_booking_amount (ur_BookingAmount req)
               @ opt_part Set_booking_status (ur_BookingStatus req)
               @ opt_part Set_payment_status (ur_PaymentStatus req) @ [Set_updated_at]) = Inr b2"
    and p2: "b1 = a2 @ b2"
    by (rule typed_parts_appendD)
  from b2 obtain a3 b3 where
    a3: "typed_parts (opt_part Set_guest_contact_number (ur_GuestContactNumber req)) = Inr a3" and
    b3: "typed_parts (opt_part Set_guest_email (ur_GuestEmail req)
               @ checkIn @ checkOut
               @ opt_part Set_number_of_guests (ur_NumberOfGuests req)
               @ opt_part Set_booking_notes (ur_BookingNotes req)
               @ opt_part Set_special_requests (ur_SpecialRequests req)
               @ opt_part Set_booking_amount (ur_BookingAmount req)
               @ opt_part Set_booking_status (ur_BookingStatus req)
               @ opt_part Set_payment_status (ur_PaymentStatus req) @ [Set_updated_at]) = Inr b3"
    and p3: "b2 = a3 @ b3"
    by (rule typed_parts_appendD)
  from b3 obtain a4 b4 where
    a4: "typed_parts (opt_part Set_guest_email (ur_GuestEmail req)) = Inr a4" and
    b4: "typed_parts (checkIn @ checkOut
               @ opt_part Set_number_of_guests (ur_NumberOfGuests req)
               @ opt_part Set_booking_notes (ur_BookingNotes req)
               @ opt_part Set_special_requests (ur_SpecialRequests req)
               @ opt_part Set_booking_amount (ur_BookingAmount req)
               @ opt_part Set_booking_status (ur_BookingStatus req)
               @ opt_part Set_payment_status (ur_PaymentStatus req) @ [Set_updated_at]) = Inr b4"
    and p4: "b3 = a4 @ b4"
    by (rule typed_parts_appendD)
  from b4 obtain a5 b5 where
    a5: "typed_parts checkIn = Inr a5" and
    b5: "typed_parts (checkOut
               @ opt_part Set_number_of_guests (ur_NumberOfGuests req)
               @ opt_part Set_booking_notes (ur_BookingNotes req)
               @ opt_part Set_special_requests (ur_SpecialRequests req)
               @ opt_part Set_booking_amount (ur_BookingAmount req)
               @ opt_part Set_booking_status (ur_BookingStatus req)
               @ opt_part Set_payment_status (ur_PaymentStatus req) @ [Set_updated_at]) = Inr b5"
    and p5: "b4 = a5 @ b5"
    by (rule typed_parts_appendD)
  from b5 obtain a6 b6 where
    a6: "typed_parts checkOut = Inr a6" and
    b6: "typed_parts (opt_part Set_number_of_guests (ur_NumberOfGuests req)
               @ opt_part Set_booking_notes (ur_BookingNotes req)
               @ opt_part Set_special_requests (ur_SpecialRequests req)
               @ opt_part Set_booking_amount (ur_BookingAmount req)
               @ opt_part Set_booking_status (ur_BookingStatus req)
               @ opt_part Set_payment_status (ur_PaymentStatus req) @ [Set_updated_at]) = Inr b6"
    and p6: "b5 = a6 @ b6"
    by (rule typed_parts_appendD)
  from b6 obtain a7 b7 where
    a7: "typed_parts (opt_part Set_number_of_guests (ur_NumberOfGuests req)) = Inr a7" and
    b7: "typed_parts (opt_part Set_booking_notes (ur_BookingNotes req)
               @ opt_part Set_special_requests (ur_SpecialRequests req)
               @ opt_part Set_booking_amount (ur_BookingAmount req)
               @ opt_part Set_booking_status (ur_BookingStatus req)
               @ opt_part Set_payment_status (ur_PaymentStatus req) @ [Set_updated_at]) = Inr b7"
    and p7: "b6 = a7 @ b7"
    by (rule typed_parts_appendD)
  from b7 obtain a8 b8 where
    a8: "typed_parts (opt_part Set_booking_notes (ur_BookingNotes req)) = Inr a8" and
    b8: "typed_parts (opt_part Set_special_requests (ur_SpecialRequests req)
               @ opt_part Set_booking_amount (ur_BookingAmount req)
               @ opt_part Set_booking_status (ur_BookingStatus req)
               @ opt_part Set_payment_status (ur_PaymentStatus req) @ [Set_updated_at]) = Inr b8"
    and p8: "b7 = a8 @ b8"
    by (rule typed_parts_appendD)
  from b8 obtain a9 b9 where
    a9: "typed_parts (opt_part Set_special_requests (ur_SpecialRequests req)) = Inr a9" and
    b9: "typed_parts (opt_part Set_booking_amount (ur_BookingAmount req)
               @ opt_part Set_booking_status (ur_BookingStatus req)
               @ opt_part Set_payment_status (ur_PaymentStatus req) @ [Set_updated_at]) = Inr b9"
    and p9: "b8 = a9 @ b9"
    by (rule typed_parts_appendD)
  from b9 obtain a10 b10 where
    a10: "typed_parts (opt_part Set_booking_amount (ur_BookingAmount req)) = Inr a10" and
    b10: "typed_parts (opt_part Set_booking_status (ur_BookingStatus req)
               @ opt_part Set_payment_status (ur_PaymentStatus req) @ [Set_updated_at]) = Inr b10"
    and p10: "b9 = a10 @ b10"
    by (rule typed_parts_appendD)
  from b10 obtain a11 b11 where
    a11: "typed_parts (opt_part Set_booking_status (ur_BookingStatus req)) = Inr a11" and
    b11: "typed_parts (opt_part Set_payment_status (ur_PaymentStatus req) @ [Set_updated_at]) = Inr b11"
    and p11: "b10 = a11 @ b11"
    by (rule typed_parts_appendD)
  from b11 obtain a12 a13 where
    a12: "typed_parts (opt_part Set_payment_status (ur_PaymentStatus req)) = Inr a12" and
    a13: "typed_parts [Set_updated_at] = Inr a13"
    and p12: "b11 = a12 @ a13"
    by (rule typed_parts_appendD)
  have ps: "ps = a1 @ a2 @ a3 @ a4 @ a5 @ a6 @ a7 @ a8 @ a9 @ a10 @ a11 @ a12 @ a13"
    using p1 p2 p3 p4 p5 p6 p7 p8 p9 p10 p11 p12 by simp
  show ?thesis
    unfolding ps fold_append comp_def
      seg_guest_name[OF a1] seg_guest_id_card[OF a2] seg_guest_contact_number[OF a3]
      seg_guest_email[OF a4] seg_check_in_date[OF ci a5] seg_check_out_date[OF co a6]
      seg_number_of_guests[OF a7] seg_booking_notes[OF a8] seg_special_requests[OF a9]
      seg_booking_amount[OF a10] seg_booking_status[OF a11] seg_payment_status[OF a12]
      seg_updated_at[OF a13] merge_request_def
    by simp
qed


lemma GetBookingByID_Inr:
  "GetBookingByID bookingID s = Inr b \<Longrightarrow>
   row b \<in> set (bookings s) \<and> booking_id (row b) = bookingID"
proof -
  assume a: "GetBookingByID bookingID s = Inr b"
  show ?thesis
  proof (cases "filter (\<lambda>r. booking_id r = bookingID) (bookings s)")
    case Nil
    then show ?thesis using a by (simp add: GetBookingByID_def queryBookings_def)
  next
    case (Cons r rs)
    then have "row b = r" using a by (auto simp: GetBookingByID_def queryBookings_def)
    moreover have "r \<in> set (filter (\<lambda>r. booking_id r = bookingID) (bookings s))"
      using Cons by simp
    ultimately show ?thesis by simp
  qed
qed

lemma merge_request_keeps:
  "booking_id (merge_request now req old) = booking_id old"
  "property_id (merge_request now req old) = property_id old"
  "created_by (merge_request now req old) = created_by old"
  "created_at (merge_request now req old) = created_at old"
  "updated_at (merge_request now req old) = now"
  by (simp_all add: merge_request_def)

lemma UpdateBooking_cases:
  obtains (failed) e where "UpdateBooking now bookingID req s = (Inl e, s)"
  | (updated) b old where
      "old \<in> set (bookings s)" "booking_id old = bookingID"
      "\<forall>r\<in>set (bookings s). \<not> overlap_row (merge_request now req old) r"
      "check_constraints (merge_request now req old) = Inr (merge_request now req old)"
      "row b = merge_request now req old"
      "UpdateBooking now bookingID req s =
         (Inr b, s\<lparr>bookings := map (\<lambda>r. if booking_id r = bookingID
                                          then merge_request now req old else r) (bookings s)\<rparr>)"
proof (cases "setParts req")
  case (Inl e)
  then show ?thesis using failed by (simp add: UpdateBooking_def)
next
  case parts: (Inr parts)
  show ?thesis
  proof (cases "length parts = 0")
    case True
    then show ?thesis using failed parts by (simp add: UpdateBooking_def)
  next
    case ne: False
    show ?thesis
    proof (cases "typed_parts (parts @ [Set_updated_at])")
      case (Inl e)
      then show ?thesis using failed parts ne by (simp add: UpdateBooking_def bind_db_def)
    next
      case ps: (Inr ps)
      have setf: "(\<lambda>r. fold (assign now) ps r) = merge_request now req"
        using fold_assign_merge[OF parts ps] by (simp add: fun_eq_iff)
      have U: "UpdateBooking now bookingID req s =
        (case update_booking now bookingID (\<lambda>r. True) (merge_request now req) s of
           Inl e \<Rightarrow> (Inl (DbError e), s)
         | Inr (rowsAffected, s') \<Rightarrow>
             if rowsAffected = 0 then (Inl BookingNotFound, s')
             else (GetBookingByID bookingID s', s'))"
        using parts ne ps setf by (simp add: UpdateBooking_def bind_db_def)
      show ?thesis
      proof (cases rule: update_booking_cases[of now bookingID "\<lambda>r. True" "merge_request now req" s])
        case (error e)
        then show ?thesis using failed U by simp
      next
        case none
        then show ?thesis using failed U by simp
      next
        case (one old new)
        have o: "old \<in> set (bookings s)" "booking_id old = bookingID"
          using find_SomeD[OF one(1)] by simp_all
        have new: "new = merge_request now req old"
          using one(2) by (simp add: update_updated_at_column_def merge_request_def)
        let ?s' = "s\<lparr>bookings := map (\<lambda>r. if booking_id r = bookingID then new else r) (bookings s)\<rparr>"
        have "new \<in> set (bookings ?s')" using o by force
        moreover have idn: "booking_id new = bookingID" using new o(2) merge_request_keeps(1) by simp
        ultimately obtain b where b: "GetBookingByID bookingID ?s' = Inr b"
          using GetBookingByID_found by blast
        then have "row b \<in> set (bookings ?s')" "booking_id (row b) = bookingID"
          using GetBookingByID_Inr by blast+
        then have rb: "row b = new" by auto
        have "UpdateBooking now bookingID req s = (Inr b, ?s')"
          using U one(5) b by simp
        then show ?thesis using updated[OF o _ _ _ , of b] one(3,4) rb new by simp
      qed
    qed
  qed
qed

lemma typed_part_Inl: "typed_part p = Inl e \<Longrightarrow> e = DataException"
  by (cases p)
     (auto simp: bind_db_def varchar_def int4_def decimal_10_2_def split: if_splits sum.splits)

lemma typed_parts_Inl: "typed_parts ps = Inl e \<Longrightarrow> e = DataException"
proof (induction ps)
  case Nil
  then show ?case by simp
next
  case (Cons p ps)
  then show ?case using typed_part_Inl[of p] by (auto split: sum.splits)
qed

lemma date_part_parses:
  "parses v \<Longrightarrow> \<exists>seg. date_part C e v = Inr seg \<and> (seg = [] \<longleftrightarrow> v = None)"
  by (cases v) (auto simp: parses_def date_part_def)

lemma opt_part_empty: "opt_part C v = [] \<longleftrightarrow> v = None"
  by (cases v) (simp_all add: opt_part_def)

lemma setParts_parses:
  assumes "dates_parse req"
  obtains parts where "setParts req = Inr parts" "parts \<noteq> [] \<longleftrightarrow> some_field req"
proof -
  from assms obtain checkIn where
    ci: "date_part Set_check_in_date InvalidCheckInDate (ur_CheckInDate req) = Inr checkIn"
      "checkIn = [] \<longleftrightarrow> ur_CheckInDate req = None"
    using date_part_parses[of "ur_CheckInDate req" Set_check_in_date InvalidCheckInDate]
    by (auto simp: dates_parse_def)
  from assms obtain checkOut where
    co: "date_part Set_check_out_date InvalidCheckOutDate (ur_CheckOutDate req) = Inr checkOut"
      "checkOut = [] \<longleftrightarrow> ur_CheckOutDate req = None"
    using date_part_parses[of "ur_CheckOutDate req" Set_check_out_date InvalidCheckOutDate]
    by (auto simp: dates_parse_def)
  let ?parts = "opt_part Set_guest_name (ur_GuestName req)
               @ opt_part Set_guest_id_card (ur_GuestIDCard req)
               @ opt_part Set_guest_contact_number (ur_GuestContactNumber req)
               @ opt_part Set_guest_email (ur_GuestEmail req)
               @ checkIn @ checkOut
               @ opt_part Set_number_of_guests (ur_NumberOfGuests req)
               @ opt_part Set_booking_notes (ur_BookingNotes req)
               @ opt_part Set_special_requests (ur_SpecialRequests req)
               @ opt_part Set_booking_amount (ur_BookingAmount req)
               @ opt_part Set_booking_status (ur_BookingStatus req)
               @ opt_part Set_payment_status (ur_PaymentStatus req)"
  have "setParts req = Inr ?parts" using ci(1) co(1) by (simp add: setParts_def)
  moreover have "?parts \<noteq> [] \<longleftrightarrow> some_field req"
    using ci(2) co(2) by (simp add: opt_part_empty some_field_def)
  ultimately show ?thesis using that by blast
qed

lemma typed_parts_join:
  assumes "\<exists>a. typed_parts xs = Inr a" and "\<exists>b. typed_parts ys = Inr b"
  shows "\<exists>c. typed_parts (xs @ ys) = Inr c"
  using assms typed_parts_append by blast

lemma typed_varchar_part:
  assumes "fits_opt n v" and "\<And>x. typed_part (C x) = bind_db (varchar n x) (\<lambda>y. Inr (C y))"
  shows "\<exists>a. typed_parts (opt_part C v) = Inr a"
proof (cases v)
  case None
  then show ?thesis by (simp add: opt_part_def)
next
  case (Some x)
  then have "varchar n x = Inr x" using assms(1) by (simp add: fits_opt_def varchar_fits)
  then have "typed_part (C x) = Inr (C x)" using assms(2) by (simp add: bind_db_def)
  then show ?thesis using Some by (simp add: opt_part_def)
qed

lemma typed_plain_part:
  assumes "\<And>x. typed_part (C x) = Inr (C x)"
  shows "\<exists>a. typed_parts (opt_part C v) = Inr a"
  using assms by (cases v) (simp_all add: opt_part_def)

lemma typed_parts_fits:
  assumes fits: "update_fits req" and parts: "setParts req = Inr parts"
  shows "\<exists>ps. typed_parts (parts @ [Set_updated_at]) = Inr ps"
proof -
  from parts obtain checkIn checkOut where
    ci: "date_part Set_check_in_date InvalidCheckInDate (ur_CheckInDate req) = Inr checkIn"
    and co: "date_part Set_check_out_date InvalidCheckOutDate (ur_CheckOutDate req) = Inr checkOut"
    and p: "parts = opt_part Set_guest_name (ur_GuestName req)
               @ opt_part Set_guest_id_card (ur_GuestIDCard req)
               @ opt_part Set_guest_contact_number (ur_GuestContactNumber req)
               @ opt_part Set_guest_email (ur_GuestEmail req)
               @ checkIn @ checkOut
               @ opt_part Set_number_of_guests (ur_NumberOfGuests req)
               @ opt_part Set_booking_notes (ur_BookingNotes req)
               @ opt_part Set_special_requests (ur_SpecialRequests req)
               @ opt_part Set_booking_amount (ur_BookingAmount req)
               @ opt_part Set_booking_status (ur_BookingStatus req)
               @ opt_part Set_payment_status (ur_PaymentStatus req)"
    by (rule setParts_Inr)
  have t1: "\<exists>a. typed_parts (opt_part Set_guest_name (ur_GuestName req)) = Inr a"
    using fits by (intro typed_varchar_part[of 100]) (simp_all add: update_fits_def)
  have t2: "\<exists>a. typed_parts (opt_part Set_guest_id_card (ur_GuestIDCard req)) = Inr a"
    using fits by (intro typed_varchar_part[of 50]) (simp_all add: update_fits_def)
  have t3: "\<exists>a. typed_parts (opt_part Set_guest_contact_number (ur_GuestContactNumber req)) = Inr a"
    using fits by (intro typed_varchar_part[of 20]) (simp_all add: update_fits_def)
  have t4: "\<exists>a. typed_parts (opt_part Set_guest_email (ur_GuestEmail req)) = Inr a"
    using fits by (intro typed_varchar_part[of 100]) (simp_all add: update_fits_def)
  have t5: "\<exists>a. typed_parts checkIn = Inr a"
    using ci by (cases "ur_CheckInDate req") (auto simp: date_part_def split: option.splits)
  have t6: "\<exists>a. typed_parts checkOut = Inr a"
    using co by (cases "ur_CheckOutDate req") (auto simp: date_part_def split: option.splits)
  have t7: "\<exists>a. typed_parts (opt_part Set_number_of_guests (ur_NumberOfGuests req)) = Inr a"
    using fits
    by (cases "ur_NumberOfGuests req")
       (simp_all add: update_fits_def opt_part_def int4_def bind_db_def)
  have t8: "\<exists>a. typed_parts (opt_part Set_booking_notes (ur_BookingNotes req)) = Inr a"
    by (intro typed_plain_part) simp
  have t9: "\<exists>a. typed_parts (opt_part Set_special_requests (ur_SpecialRequests req)) = Inr a"
    by (intro typed_plain_part) simp
  have t10: "\<exists>a. typed_parts (opt_part Set_booking_amount (ur_BookingAmount req)) = Inr a"
    using fits
    by (cases "ur_BookingAmount req")
       (simp_all add: update_fits_def opt_part_def decimal_10_2_def bind_db_def)
  have t11: "\<exists>a. typed_parts (opt_part Set_booking_status (ur_BookingStatus req)) = Inr a"
    using fits by (intro typed_varchar_part[of 20]) (simp_all add: update_fits_def)
  have t12: "\<exists>a. typed_parts (opt_part Set_payment_status (ur_PaymentStatus req)) = Inr a"
    using fits by (intro typed_varchar_part[of 20]) (simp_all add: update_fits_def)
  have t13: "\<exists>a. typed_parts [Set_updated_at] = Inr a" by simp
  show ?thesis
    unfolding p append_assoc
    by (intro typed_parts_join t1 t2 t3 t4 t5 t6 t7 t8 t9 t10 t11 t12 t13)
qed

lemma find_distinct:
  assumes "distinct (map booking_id rows)" and "old \<in> set rows"
  shows "find (\<lambda>r. booking_id r = booking_id old \<and> True) rows = Some old"
  using assms
proof (induction rows)
  case Nil
  then show ?case by simp
next
  case (Cons r rows)
  show ?case
  proof (cases "r = old")
    case True
    then show ?thesis by simp
  next
    case False
    then have o: "old \<in> set rows" using Cons.prems(2) by simp
    then have "booking_id r \<noteq> booking_id old" using Cons.prems(1) by auto
    then show ?thesis using Cons.IH o Cons.prems(1) by simp
  qed
qed

lemma filter_distinct_key:
  "distinct (map f xs) \<Longrightarrow> x \<in> set xs \<Longrightarrow> filter (\<lambda>y. f y = f x) xs = [x]"
proof (induction xs)
  case Nil
  then show ?case by simp
next
  case (Cons a xs)
  show ?case
  proof (cases "a = x")
    case True
    then have "f x \<notin> f ` set xs" using Cons.prems(1) by simp
    then have "\<forall>y\<in>set xs. f y \<noteq> f x" by (metis imageI)
    then have "filter (\<lambda>y. f y = f x) xs = []" by (simp add: filter_empty_conv)
    then show ?thesis using True by simp
  next
    case False
    then have x: "x \<in> set xs" using Cons.prems(2) by simp
    then have "f a \<noteq> f x" using Cons.prems(1) by auto
    then show ?thesis using Cons.IH x Cons.prems(1) by simp
  qed
qed

lemma GetBookingByID_distinct:
  assumes "distinct (map booking_id (bookings s))" and "r \<in> set (bookings s)"
  shows "GetBookingByID (booking_id r) s
         = Inr \<lparr>row = r, TotalNights = total_nights r,
                AdditionalGuests = getAdditionalGuests s (booking_id r)\<rparr>"
proof -
  have "filter (\<lambda>x. booking_id x = booking_id r) (bookings s) = [r]"
    using assms by (rule filter_distinct_key)
  then show ?thesis by (simp add: GetBookingByID_def queryBookings_def)
qed

lemma UpdateBooking_succeeds:
  assumes d: "distinct (map booking_id (bookings s))" and old: "old \<in> set (bookings s)"
    and req: "dates_parse req" "some_field req" "update_fits req"
    and ov: "\<not> list_ex (overlap_row (merge_request now req old)) (bookings s)"
    and cc: "check_constraints (merge_request now req old) = Inr (merge_request now req old)"
  shows "UpdateBooking now (booking_id old) req s
         = (Inr (updated_booking now req old s), updated now req old s)"
proof -
  let ?new = "merge_request now req old"
  from req(1) obtain parts where parts: "setParts req = Inr parts"
    and ne: "parts \<noteq> [] \<longleftrightarrow> some_field req"
    by (rule setParts_parses)
  from typed_parts_fits[OF req(3) parts] obtain ps where
    ps: "typed_parts (parts @ [Set_updated_at]) = Inr ps" by blast
  have setf: "(\<lambda>r. fold (assign now) ps r) = merge_request now req"
    using fold_assign_merge[OF parts ps] by (simp add: fun_eq_iff)
  have f: "find (\<lambda>r. booking_id r = booking_id old \<and> True) (bookings s) = Some old"
    using d old by (rule find_distinct)
  have t: "check_booking_overlap (bookings s) ?new = Inr ?new"
    using ov by (simp add: check_booking_overlap_def)
  have u: "update_updated_at_column now ?new = ?new"
    by (simp add: update_updated_at_column_def merge_request_def)
  have upd: "update_booking now (booking_id old) (\<lambda>r. True) (merge_request now req) s
             = Inr (1, updated now req old s)"
    using f t u cc by (simp add: update_booking_def updated_def)
  have d': "distinct (map booking_id (bookings (updated now req old s)))"
  proof -
    have "map booking_id (bookings (updated now req old s)) = map booking_id (bookings s)"
      using merge_request_keeps(1)[of now req old] by (simp add: updated_def comp_def)
    then show ?thesis using d by simp
  qed
  have m: "?new \<in> set (bookings (updated now req old s))"
    using old by (force simp: updated_def)
  have g: "getAdditionalGuests (updated now req old s) (booking_id old)
           = getAdditionalGuests s (booking_id old)"
    by (simp add: getAdditionalGuests_def updated_def)
  have "GetBookingByID (booking_id ?new) (updated now req old s)
        = Inr \<lparr>row = ?new, TotalNights = total_nights ?new,
               AdditionalGuests = getAdditionalGuests (updated now req old s) (booking_id ?new)\<rparr>"
    using d' m by (rule GetBookingByID_distinct)
  then have get: "GetBookingByID (booking_id old) (updated now req old s)
        = Inr (updated_booking now req old s)"
    using g by (simp add: merge_request_keeps(1) updated_booking_def)
  show ?thesis
    using parts ne req(2) ps setf upd get by (simp add: UpdateBooking_def bind_db_def)
qed

lemma UpdateBooking_not_found:
  assumes nf: "\<forall>r\<in>set (bookings s). booking_id r \<noteq> bookingID"
    and req: "dates_parse req" "some_field req" "update_fits req"
  shows "UpdateBooking now bookingID req s = (Inl BookingNotFound, s)"
proof -
  from req(1) obtain parts where parts: "setParts req = Inr parts"
    and ne: "parts \<noteq> [] \<longleftrightarrow> some_field req"
    by (rule setParts_parses)
  from typed_parts_fits[OF req(3) parts] obtain ps where
    ps: "typed_parts (parts @ [Set_updated_at]) = Inr ps" by blast
  have "find (\<lambda>r. booking_id r = bookingID \<and> True) (bookings s) = None"
    using nf by (simp add: find_None_iff2)
  then show ?thesis
    using parts ne req(2) ps by (simp add: UpdateBooking_def bind_db_def update_booking_def)
qed

lemma notes_only_accepted:
  "dates_parse (notes_only v)" "some_field (notes_only v)" "update_fits (notes_only v)"
  by (simp_all add: notes_only_def dates_parse_def parses_def some_field_def update_fits_def
      fits_opt_def)

lemma merge_notes_only:
  "merge_request now (notes_only v) old = old\<lparr>booking_notes := Some v, updated_at := now\<rparr>"
  by (simp add: merge_request_def notes_only_def supplied_def supplied_date_def)

text \<open>
  In a database that satisfies the invariant the trigger and the constraints pass a change
  of the notes of a pending or confirmed booking.
\<close>

lemma notes_pass_trigger:
  assumes inv: "store_inv rows" and old: "old \<in> set rows" and act: "active old"
  shows "\<not> list_ex (overlap_row (old\<lparr>booking_notes := Some v, updated_at := now\<rparr>)) rows"
proof -
  let ?new = "old\<lparr>booking_notes := Some v, updated_at := now\<rparr>"
  have "\<not> overlap_row ?new r" if r: "r \<in> set rows" for r
  proof
    assume o: "overlap_row ?new r"
    then have riv: "rivals old r" using act by (simp add: overlap_row_def rivals_def)
    have c: "conflict (check_in_date old) (check_out_date old) (check_in_date r) (check_out_date r)"
      using o by (simp add: overlap_row_def)
    have "check_constraints old = Inr old" "check_constraints r = Inr r"
      using inv old r by (simp_all add: store_inv_iff)
    then have "check_in_date old < check_out_date old" "check_in_date r < check_out_date r"
      by (simp_all add: check_constraints_Inr)
    then have "intersecting old r" using c by (rule conflict_intersecting)
    moreover have "\<not> intersecting old r" using inv old r riv by (simp add: store_inv_iff)
    ultimately show False by simp
  qed
  then show ?thesis by (simp add: list_ex_iff)
qed

lemma notes_pass_checks:
  assumes "check_constraints old = Inr old"
  shows "check_constraints (old\<lparr>booking_notes := Some v, updated_at := now\<rparr>)
         = Inr (old\<lparr>booking_notes := Some v, updated_at := now\<rparr>)"
  using assms by (simp add: check_constraints_Inr)

lemma UpdateBooking_notes_reachable:
  assumes "bookings s0 = []" and s: "s = run cs s0"
    and old: "old \<in> set (bookings s)" and act: "active old"
  shows "UpdateBooking now (booking_id old) (notes_only v) s
         = (Inr (updated_booking now (notes_only v) old s), updated now (notes_only v) old s)"
proof -
  have inv: "store_inv (bookings s)" using assms(1) s reachable_inv by simp
  then have d: "distinct (map booking_id (bookings s))" by (simp add: store_inv_iff)
  have c: "check_constraints old = Inr old" using inv old by (simp add: store_inv_iff)
  show ?thesis
    using d old notes_only_accepted
  proof (rule UpdateBooking_succeeds)
    show "\<not> list_ex (overlap_row (merge_request now (notes_only v) old)) (bookings s)"
      unfolding merge_notes_only using inv old act by (rule notes_pass_trigger)
    show "check_constraints (merge_request now (notes_only v) old)
          = Inr (merge_request now (notes_only v) old)"
      unfolding merge_notes_only using c by (rule notes_pass_checks)
  qed
qed

text \<open>
  C7, as the code has it. Take a booking of the database (whose identifiers are distinct)
  and a request that supplies at least one field, whose date strings parse and whose values
  fit their columns. If the merge of the row with the request (each supplied field with the
  supplied value, every other column as it was, \<^verbatim>\<open>updated_at\<close> the time of the call)
  conflicts with no other active booking of its property and satisfies the \<^verbatim>\<open>CHECK\<close>
  constraints, then \<^verbatim>\<open>UpdateBooking\<close> succeeds: it returns the merged row and stores it in
  place of the old one, all other rows as they were. Every success has this form, and a
  failure leaves the database unchanged. For an identifier that no booking has, such a
  request fails with "booking not found" (and any request fails, a malformed one with its
  own error). A request with only \<^verbatim>\<open>booking_notes\<close> changes the notes and \<^verbatim>\<open>updated_at\<close>
  and nothing else; in a database reached from one without bookings it succeeds for every
  pending or confirmed booking.
\<close>

theorem UpdateBooking_partial:
  "(distinct (map booking_id (bookings s)) \<longrightarrow> old \<in> set (bookings s) \<longrightarrow>
      dates_parse req \<longrightarrow> some_field req \<longrightarrow> update_fits req \<longrightarrow>
      \<not> list_ex (overlap_row (merge_request now req old)) (bookings s) \<longrightarrow>
      check_constraints (merge_request now req old) = Inr (merge_request now req old) \<longrightarrow>
      UpdateBooking now (booking_id old) req s
        = (Inr (updated_booking now req old s), updated now req old s))
   \<and> (\<forall>b s'. UpdateBooking now bookingID req s = (Inr b, s') \<longrightarrow>
        (\<exists>r\<in>set (bookings s). booking_id r = bookingID
           \<and> row b = merge_request now req r \<and> s' = updated now req r s
           \<and> check_constraints (merge_request now req r) = Inr (merge_request now req r)))
   \<and> (\<forall>e s'. UpdateBooking now bookingID req s = (Inl e, s') \<longrightarrow> s' = s)
   \<and> ((\<forall>r\<in>set (bookings s). booking_id r \<noteq> bookingID) \<longrightarrow>
        (dates_parse req \<longrightarrow> some_field req \<longrightarrow> update_fits req \<longrightarrow>
           UpdateBooking now bookingID req s = (Inl BookingNotFound, s))
        \<and> (\<exists>e. UpdateBooking now bookingID req s = (Inl e, s)
              \<and> (e = BookingNotFound \<or> e = InvalidCheckInDate \<or> e = InvalidCheckOutDate
                   \<or> e = NoFieldsToUpdate \<or> e = DbError DataException)))
   \<and> (bookings s0 = [] \<longrightarrow> s = run cs s0 \<longrightarrow> old \<in> set (bookings s) \<longrightarrow> active old \<longrightarrow>
        UpdateBooking now (booking_id old) (notes_only v) s
          = (Inr (updated_booking now (notes_only v) old s), updated now (notes_only v) old s))
   \<and> merge_request now (notes_only v) old = old\<lparr>booking_notes := Some v, updated_at := now\<rparr>"
proof (intro conjI allI impI)
  assume "distinct (map booking_id (bookings s))" "old \<in> set (bookings s)"
    "dates_parse req" "some_field req" "update_fits req"
    "\<not> list_ex (overlap_row (merge_request now req old)) (bookings s)"
    "check_constraints (merge_request now req old) = Inr (merge_request now req old)"
  then show "UpdateBooking now (booking_id old) req s
        = (Inr (updated_booking now req old s), updated now req old s)"
    by (rule UpdateBooking_succeeds)
next
  fix b s' assume a: "UpdateBooking now bookingID req s = (Inr b, s')"
  show "\<exists>r\<in>set (bookings s). booking_id r = bookingID
           \<and> row b = merge_request now req r \<and> s' = updated now req r s
           \<and> check_constraints (merge_request now req r) = Inr (merge_request now req r)"
  proof (cases rule: UpdateBooking_cases[of now bookingID req s])
    case (failed e)
    then show ?thesis using a by simp
  next
    case (updated b' r)
    then have "b' = b" "s' = updated now req r s"
      using a by (simp_all add: updated_def)
    then show ?thesis using updated(1,2,4,5) by auto
  qed
next
  fix e s' assume a: "UpdateBooking now bookingID req s = (Inl e, s')"
  show "s' = s"
  proof (cases rule: UpdateBooking_cases[of now bookingID req s])
    case (failed e')
    then show ?thesis using a by simp
  next
    case (updated b r)
    then show ?thesis using a by simp
  qed
next
  assume nf: "\<forall>r\<in>set (bookings s). booking_id r \<noteq> bookingID"
  show "UpdateBooking now bookingID req s = (Inl BookingNotFound, s)"
    if "dates_parse req" "some_field req" "update_fits req"
    using nf that by (rule UpdateBooking_not_found)
  have f: "find (\<lambda>r. booking_id r = bookingID \<and> True) (bookings s) = None"
    using nf by (simp add: find_None_iff2)
  show "\<exists>e. UpdateBooking now bookingID req s = (Inl e, s)
            \<and> (e = BookingNotFound \<or> e = InvalidCheckInDate \<or> e = InvalidCheckOutDate
                 \<or> e = NoFieldsToUpdate \<or> e = DbError DataException)"
  proof (cases "setParts req")
    case (Inl e)
    then have "e = InvalidCheckInDate \<or> e = InvalidCheckOutDate"
      by (auto simp: setParts_def date_part_def split: sum.splits option.splits)
    then show ?thesis using Inl by (auto simp: UpdateBooking_def)
  next
    case parts: (Inr parts)
    show ?thesis
    proof (cases "length parts = 0")
      case True
      then show ?thesis using parts by (simp add: UpdateBooking_def)
    next
      case ne: False
      show ?thesis
      proof (cases "typed_parts (parts @ [Set_updated_at])")
        case (Inl e)
        then have "UpdateBooking now bookingID req s = (Inl (DbError e), s)"
          using parts ne by (simp add: UpdateBooking_def bind_db_def)
        then show ?thesis using typed_parts_Inl[OF Inl] by simp
      next
        case (Inr ps)
        then have "UpdateBooking now bookingID req s = (Inl BookingNotFound, s)"
          using parts ne f by (simp add: UpdateBooking_def bind_db_def update_booking_def)
        then show ?thesis by simp
      qed
    qed
  qed
next
  assume "bookings s0 = []" "s = run cs s0" "old \<in> set (bookings s)" "active old"
  then show "UpdateBooking now (booking_id old) (notes_only v) s
          = (Inr (updated_booking now (notes_only v) old s), updated now (notes_only v) old s)"
    by (rule UpdateBooking_notes_reachable)
next
  show "merge_request now (notes_only v) old = old\<lparr>booking_notes := Some v, updated_at := now\<rparr>"
    by (rule merge_notes_only)
qed

theorem UpdateBooking_partial_witness:
  "map (\<lambda>r. (booking_id r, check_in_date r, check_out_date r, booking_notes r, updated_at r))
     (bookings (snd (UpdateBooking 9 11 (dates_only None (Some ''2024-01-25''))
                       (run demo_commands demo_store))))
     = [(10, Date 2024 1 15, Date 2024 1 20, Some ''Anniversary celebration'', 0),
        (11, Date 2024 1 20, Date 2024 1 25, Some ''Anniversary celebration'', 9)]
   \<and> \<not> isl (fst (UpdateBooking 9 11 (dates_only None (Some ''2024-01-25''))
                    (run demo_commands demo_store)))
   \<and> map (\<lambda>r. (booking_id r, check_in_date r, check_out_date r, number_of_guests r,
               booking_status r, booking_notes r, updated_at r))
       (bookings (snd (UpdateBooking 9 10 (notes_only ''late arrival'')
                         (run demo_commands demo_store))))
     = [(10, Date 2024 1 15, Date 2024 1 20, 2, ''confirmed'', Some ''late arrival'', 9),
        (11, Date 2024 1 20, Date 2024 1 22, 2, ''confirmed'', Some ''Anniversary celebration'', 1)]
   \<and> \<not> isl (fst (UpdateBooking 9 10 (notes_only ''late arrival'') (run demo_commands demo_store)))
   \<and> UpdateBooking 9 99 (notes_only ''late arrival'') (run demo_commands demo_store)
      = (Inl BookingNotFound, run demo_commands demo_store)"
proof -
  define s where "s = run demo_commands demo_store"
  define a where "a = bookings s ! 0"
  define b where "b = bookings s ! 1"
  have rows: "bookings s = [a, b]" unfolding a_def b_def s_def by code_simp
  have ids: "booking_id a = 10" "booking_id b = 11" unfolding a_def b_def s_def by code_simp+
  have d: "distinct (map booking_id (bookings s))" unfolding rows using ids by simp
  have mem: "a \<in> set (bookings s)" "b \<in> set (bookings s)" unfolding rows by simp_all
  have act: "active a" unfolding a_def s_def by code_simp
  have e: "bookings demo_store = []" by (simp add: demo_store_def)
  have r: "dates_parse (dates_only None (Some ''2024-01-25''))"
    "some_field (dates_only None (Some ''2024-01-25''))"
    "update_fits (dates_only None (Some ''2024-01-25''))"
    by code_simp+
  have ov: "\<not> list_ex (overlap_row (merge_request 9 (dates_only None (Some ''2024-01-25'')) b))
               (bookings s)"
    unfolding b_def s_def by code_simp
  have cc: "check_constraints (merge_request 9 (dates_only None (Some ''2024-01-25'')) b)
            = Inr (merge_request 9 (dates_only None (Some ''2024-01-25'')) b)"
    unfolding b_def s_def by code_simp
  have nf: "\<forall>r\<in>set (bookings s). booking_id r \<noteq> 99" unfolding rows using ids by simp
  note t1 = UpdateBooking_partial[of s b "dates_only None (Some ''2024-01-25'')" 9]
  note t2 = UpdateBooking_partial[of s a "notes_only ''late arrival''" 9 99 demo_store
      demo_commands "''late arrival''"]
  have u1: "UpdateBooking 9 11 (dates_only None (Some ''2024-01-25'')) s
        = (Inr (updated_booking 9 (dates_only None (Some ''2024-01-25'')) b s),
           updated 9 (dates_only None (Some ''2024-01-25'')) b s)"
    using t1 d mem(2) r ov cc ids(2) by metis
  have u2: "UpdateBooking 9 10 (notes_only ''late arrival'') s
        = (Inr (updated_booking 9 (notes_only ''late arrival'') a s),
           updated 9 (notes_only ''late arrival'') a s)"
    using t2 e s_def mem(1) act ids(1) by metis
  have u3: "UpdateBooking 9 99 (notes_only ''late arrival'') s = (Inl BookingNotFound, s)"
    using t2 nf notes_only_accepted by blast
  have v1: "map (\<lambda>r. (booking_id r, check_in_date r, check_out_date r, booking_notes r, updated_at r))
     (bookings (updated 9 (dates_only None (Some ''2024-01-25'')) b s))
     = [(10, Date 2024 1 15, Date 2024 1 20, Some ''Anniversary celebration'', 0),
        (11, Date 2024 1 20, Date 2024 1 25, Some ''Anniversary celebration'', 9)]"
    unfolding b_def s_def by code_simp
  have v2: "map (\<lambda>r. (booking_id r, check_in_date r, check_out_date r, number_of_guests r,
               booking_status r, booking_notes r, updated_at r))
       (bookings (updated 9 (notes_only ''late arrival'') a s))
     = [(10, Date 2024 1 15, Date 2024 1 20, 2, ''confirmed'', Some ''late arrival'', 9),
        (11, Date 2024 1 20, Date 2024 1 22, 2, ''confirmed'', Some ''Anniversary celebration'', 1)]"
    unfolding a_def s_def by code_simp
  show ?thesis
    unfolding s_def[symmetric] u1 u2 u3 fst_conv snd_conv using v1 v2 by simp
qed

text \<open>
  Three updates that do not do what the request asks. A request with only
  \<^verbatim>\<open>booking_notes\<close> for the cancelled booking 10, whose stay intersects the stay of the
  active booking 12 created after the cancellation: the overlap trigger runs and raises its
  exception. A request that moves the check-out of booking 10 before its check-in: the
  constraint \<^verbatim>\<open>check_dates\<close> refuses it. A request with a date that does not parse for an
  identifier that no booking has: the error is the one of the date.
\<close>

theorem notes_only_update_rechecks_overlap:
  "map (\<lambda>r. (booking_id r, booking_status r))
     (bookings (run demo_commands_rebooked demo_store))
     = [(10, ''cancelled''), (11, ''confirmed''), (12, ''confirmed'')]
   \<and> UpdateBooking 9 10 (notes_only ''late arrival'') (run demo_commands_rebooked demo_store)
      = (Inl (DbError OverlapException), run demo_commands_rebooked demo_store)
   \<and> UpdateBooking 9 10 (dates_only None (Some ''2024-01-10'')) (run demo_commands demo_store)
      = (Inl (DbError (CheckViolation ''check_dates'')), run demo_commands demo_store)
   \<and> UpdateBooking 9 99 (dates_only (Some ''2024-1-5'') None) (run demo_commands demo_store)
      = (Inl InvalidCheckInDate, run demo_commands demo_store)"
  by code_simp

subsection \<open>The calendar of a month\<close>

























end
